theory Spec2Isabelle
  imports Main
begin

section \<open>JavaScript strings and values\<close>

text \<open>
  JavaScript strings are modelled as \<open>string\<close> (a list of 8-bit characters), so a text is
  a sequence of code units below 256. Arrays are lists, \<open>undefined\<close> results are \<open>None\<close>,
  and a thrown exception (\<open>TypeError\<close>, a \<open>DOMException\<close>) or a process killed by
  \<open>Util.customKill\<close> is a value of type \<open>error\<close>.
\<close>

datatype error = TypeError | DOMException | Killed

text \<open>\<open>s.startsWith(p)\<close>, written with the pattern first.\<close>

fun startsWith :: "string \<Rightarrow> string \<Rightarrow> bool" where
  "startsWith [] s = True"
| "startsWith (p # ps) [] = False"
| "startsWith (p # ps) (c # cs) = (p = c \<and> startsWith ps cs)"

text \<open>\<open>s.includes(p)\<close>.\<close>

fun includesStr :: "string \<Rightarrow> string \<Rightarrow> bool" where
  "includesStr p [] = (p = [])"
| "includesStr p (c # cs) = (startsWith p (c # cs) \<or> includesStr p cs)"

text \<open>
  \<open>s.replace(p, r)\<close> for a string pattern \<open>p\<close>: only the first occurrence is replaced.
  (The replacement strings of the sources hold no \<open>$\<close>, so no replacement pattern applies.)
\<close>

fun replaceFirst :: "string \<Rightarrow> string \<Rightarrow> string \<Rightarrow> string" where
  "replaceFirst p r [] = (if p = [] then r else [])"
| "replaceFirst p r (c # cs) =
     (if startsWith p (c # cs) then r @ drop (length p) (c # cs)
      else c # replaceFirst p r cs)"

text \<open>
  \<open>s.split(sep)\<close> for a non-empty separator. \<open>splitFrom sep acc s\<close> scans \<open>s\<close> with the piece
  read so far in \<open>acc\<close>; the separator's first character is consumed by the pattern, the
  rest of it by \<open>drop\<close>.
\<close>

fun splitFrom :: "string \<Rightarrow> string \<Rightarrow> string \<Rightarrow> string list" where
  "splitFrom sep acc [] = [acc]"
| "splitFrom sep acc (c # cs) =
     (if startsWith sep (c # cs) \<and> sep \<noteq> []
      then acc # splitFrom sep [] (drop (length sep - 1) cs)
      else splitFrom sep (acc @ [c]) cs)"

definition splitStr :: "string \<Rightarrow> string \<Rightarrow> string list" where
  "splitStr sep s = (if sep = [] then map (\<lambda>c. [c]) s else splitFrom sep [] s)"

text \<open>\<open>a[i]\<close> on an array: \<open>undefined\<close> out of range. (A test \<open>a.indexOf(x) > -1\<close> is
  written as list membership.)\<close>

definition at :: "'a list \<Rightarrow> int \<Rightarrow> 'a option" where
  "at xs i = (if 0 \<le> i \<and> i < int (length xs) then Some (xs ! nat i) else None)"

text \<open>The line terminators that the regular expression atom \<open>.\<close> does not match.\<close>

definition isLineTerminator :: "char \<Rightarrow> bool" where
  "isLineTerminator c = (c = CHR 0x0A \<or> c = CHR 0x0D)"

text \<open>
  The JavaScript values that reach the modelled code: \<open>JObj s\<close> is an object or function
  whose string conversion is \<open>s\<close>; numbers are restricted to the integers that print in
  decimal notation (of magnitude below \<open>10^21\<close>).
\<close>

datatype jsval = JUndefined | JNull | JBool bool | JNum int | JStr string | JObj string

fun truthy :: "jsval \<Rightarrow> bool" where
  "truthy JUndefined = False"
| "truthy JNull = False"
| "truthy (JBool b) = b"
| "truthy (JNum n) = (n \<noteq> 0)"
| "truthy (JStr s) = (s \<noteq> [])"
| "truthy (JObj s) = True"

fun showNat :: "nat \<Rightarrow> string" where
  "showNat n =
     (if n < 10 then [''0123456789'' ! n]
      else showNat (n div 10) @ [''0123456789'' ! (n mod 10)])"

declare showNat.simps [simp del]

definition showInt :: "int \<Rightarrow> string" where
  "showInt i = (if i < 0 then CHR ''-'' # showNat (nat (- i)) else showNat (nat i))"

fun toStr :: "jsval \<Rightarrow> string" where
  "toStr JUndefined = ''undefined''"
| "toStr JNull = ''null''"
| "toStr (JBool b) = (if b then ''true'' else ''false'')"
| "toStr (JNum n) = showInt n"
| "toStr (JStr s) = s"
| "toStr (JObj s) = s"

section \<open>The shared build store and the disk\<close>

text \<open>
  A bundle group entry \<open>{path, minify}\<close>; the store holds the two bundle maps
  (\<open>store.bundle.css\<close>, \<open>store.bundle.js\<close>) and the two content caches. The disk maps a
  path to the file's text, \<open>dirs\<close> are the directories made by \<open>fs.mkdirp\<close>, and \<open>reads\<close>
  logs every path handed to \<open>fs.readFile\<close>.
\<close>

record entry =
  path :: string
  minify :: bool

record store =
  bundleCss :: "string \<rightharpoonup> entry list"
  bundleJs :: "string \<rightharpoonup> entry list"
  cachedIncludes :: "string \<rightharpoonup> string"
  cachedInline :: "string \<rightharpoonup> string"

record world =
  disk :: "string \<rightharpoonup> string"
  dirs :: "string set"
  reads :: "string list"

section \<open>Include Resolver: path rules and the content cache\<close>

text \<open>The test \<open>!!path.match(/.html/g)\<close>: some character that is not a line terminator
  is followed by \<open>html\<close>.\<close>

fun hasExtension :: "string \<Rightarrow> bool" where
  "hasExtension [] = False"
| "hasExtension (c # cs) = ((\<not> isLineTerminator c \<and> startsWith ''html'' cs) \<or> hasExtension cs)"

text \<open>
  The first half of \<open>fetchIncludeSrc\<close>: the variable \<open>formattedIncludePath\<close> after the three
  assignments, in the order of the source. \<open>disabled\<close> is \<open>convertPageToDirectory.disabled\<close>.
\<close>

definition formattedIncludePath :: "bool \<Rightarrow> string \<Rightarrow> string" where
  "formattedIncludePath disabled p =
     (let f0 = p;
          f1 = (if disabled \<and> \<not> hasExtension p then p @ ''.html'' else f0);
          f2 = (if \<not> disabled \<and> hasExtension p
                then replaceFirst ''.html'' ''/index.html'' p else f1);
          f3 = (if \<not> disabled \<and> \<not> hasExtension p then p @ ''/index.html'' else f2)
      in f3)"

text \<open>
  The words of the specification, to compare with the code: a path has an explicit extension
  when it ends in \<open>.html\<close>, and stripping the extension removes these five characters.
  A path is regular when \<open>html\<close> is found in it in no place but the extension, that is:
  an extension is the only \<open>.html\<close> of the path, and a path with no extension holds no
  \<open>html\<close>.
\<close>

definition explicitExtension :: "string \<Rightarrow> bool" where
  "explicitExtension p = (5 \<le> length p \<and> drop (length p - 5) p = ''.html'')"

definition stripExtension :: "string \<Rightarrow> string" where
  "stripExtension p = take (length p - 5) p"

definition regularPath :: "string \<Rightarrow> bool" where
  "regularPath p =
     (if explicitExtension p then \<not> includesStr ''.html'' (butlast p)
      else \<not> includesStr ''html'' p)"

text \<open>
  \<open>fetchIncludeSrc\<close>: read the formatted path, store the text under the unformatted path,
  return it. A failed read ends in \<open>Util.customKill\<close>.
\<close>

definition fetchIncludeSrc ::
  "bool \<Rightarrow> string \<Rightarrow> store \<times> world \<Rightarrow> error + (string \<times> store \<times> world)" where
  "fetchIncludeSrc disabled p sw =
     (let (st, w) = sw; f = formattedIncludePath disabled p;
          w' = w\<lparr>reads := reads w @ [f]\<rparr>
      in case disk w f of
           None \<Rightarrow> Inl Killed
         | Some fetchedSrc \<Rightarrow>
             Inr (fetchedSrc, st\<lparr>cachedIncludes := (cachedIncludes st)(p \<mapsto> fetchedSrc)\<rparr>, w'))"

text \<open>\<open>obj[key]\<close> on a cache object: the stored text, or \<open>undefined\<close>.\<close>

definition cacheGet :: "(string \<rightharpoonup> string) \<Rightarrow> string \<Rightarrow> jsval" where
  "cacheGet c k = (case c k of None \<Rightarrow> JUndefined | Some s \<Rightarrow> JStr s)"

text \<open>The test \<open>[undefined, null].indexOf(cachedTarget) === -1\<close>.\<close>

definition isCached :: "jsval \<Rightarrow> bool" where
  "isCached v = (v \<notin> set [JUndefined, JNull])"

text \<open>
  The block of \<open>replaceInclude\<close> that sets \<open>content\<close> for the resolved \<open>includePath\<close>:
  the cached text when there is one, \<open>fetchIncludeSrc\<close> otherwise.
\<close>

definition includeContent ::
  "bool \<Rightarrow> string \<Rightarrow> store \<times> world \<Rightarrow> error + (string \<times> store \<times> world)" where
  "includeContent disabled includePath sw =
     (let cachedTarget = cacheGet (cachedIncludes (fst sw)) includePath
      in if isCached cachedTarget then Inr (toStr cachedTarget, sw)
         else fetchIncludeSrc disabled includePath sw)"

text \<open>
  The same block of \<open>ReplaceInline.replaceTag\<close> with \<open>fetchInlineSrc\<close>: the cache is
  \<open>cachedInline\<close>, and the file read is \<open>distPath\<close> followed by the path.
\<close>

definition fetchInlineSrc ::
  "string \<Rightarrow> string \<Rightarrow> store \<times> world \<Rightarrow> error + (string \<times> store \<times> world)" where
  "fetchInlineSrc distPath p sw =
     (let (st, w) = sw; replacePath = distPath @ p;
          w' = w\<lparr>reads := reads w @ [replacePath]\<rparr>
      in case disk w replacePath of
           None \<Rightarrow> Inl Killed
         | Some fetchedSrc \<Rightarrow>
             Inr (fetchedSrc, st\<lparr>cachedInline := (cachedInline st)(p \<mapsto> fetchedSrc)\<rparr>, w'))"

definition inlineContent ::
  "string \<Rightarrow> string \<Rightarrow> store \<times> world \<Rightarrow> error + (string \<times> store \<times> world)" where
  "inlineContent distPath formatPath sw =
     (let cachedTarget = cacheGet (cachedInline (fst sw)) formatPath
      in if isCached cachedTarget then Inr (toStr cachedTarget, sw)
         else fetchInlineSrc distPath formatPath sw)"

text \<open>
  A run of include resolutions, in order, for the proofs about the cache: each request is
  the resolved path and the disk as it is at that moment (other stages write files between
  two resolutions); the run ends at the first failure.
\<close>

fun resolutions ::
  "bool \<Rightarrow> (string \<times> (string \<rightharpoonup> string)) list \<Rightarrow> store \<times> world
   \<Rightarrow> error + (string list \<times> store \<times> world)" where
  "resolutions d [] sw = Inr ([], sw)"
| "resolutions d ((p, dk) # rs) sw =
     (case includeContent d p (fst sw, (snd sw)\<lparr>disk := dk\<rparr>) of
        Inl e \<Rightarrow> Inl e
      | Inr (c, sw') \<Rightarrow>
          (case resolutions d rs sw' of
             Inl e \<Rightarrow> Inl e
           | Inr (cs, sw'') \<Rightarrow> Inr (c # cs, sw'')))"

section \<open>Files and the type gate\<close>

text \<open>
  The file record of \<open>getSrcConfig\<close>: \<open>fExt\<close> is \<open>undefined\<close> for a name without a dot.
  \<open>isAllowedType\<close> gates every stage; its opt-in and opt-out lists are optional arguments.
\<close>

record fileInfo =
  fExt :: "string option"
  fName :: string
  fNameIfIndex :: "string option"
  fPath :: string
  fSrc :: string

definition isAllowedType :: "fileInfo option \<Rightarrow> string list option \<Rightarrow> string list option \<Rightarrow> bool" where
  "isAllowedType fo allowType disallowType =
     (case fo of
        None \<Rightarrow> False
      | Some f \<Rightarrow>
          (case fExt f of
             None \<Rightarrow> False
           | Some e \<Rightarrow>
               if e = [] then False
               else let ext = (if hd e = CHR ''.'' then e else CHR ''.'' # e) in
                 if (case allowType of None \<Rightarrow> False | Some a \<Rightarrow> ext \<notin> set a) then False
                 else if (case disallowType of None \<Rightarrow> False | Some a \<Rightarrow> ext \<in> set a) then False
                 else True))"

section \<open>The document model\<close>

text \<open>
  A node of the parsed tree: text, a comment, or an element with an identity, its local
  name in lower case, its attributes in order and its children. A document is the
  doctype's name, when the input had a doctype, and the child nodes of the document
  node (the \<open>html\<close> element). The documents of the model are those whose doctype, when
  there is one, is the first child of the document node: no comment stands before it.
  The identity stands for the JavaScript object reference that the stages hold while they
  mutate the tree.
\<close>

type_synonym attrs = "(string \<times> string) list"

datatype node =
    Text string
  | Comment string
  | Element nat string attrs "node list"

record document =
  doctype :: "string option"
  childNodes :: "node list"

fun isElement :: "node \<Rightarrow> bool" where
  "isElement (Element i t a cs) = True"
| "isElement n = False"

fun nodeId :: "node \<Rightarrow> nat" where
  "nodeId (Element i t a cs) = i"
| "nodeId n = 0"

fun localName :: "node \<Rightarrow> string" where
  "localName (Element i t a cs) = t"
| "localName n = []"

fun attributes :: "node \<Rightarrow> attrs" where
  "attributes (Element i t a cs) = a"
| "attributes n = []"

fun children :: "node \<Rightarrow> node list" where
  "children (Element i t a cs) = cs"
| "children n = []"

text \<open>\<open>el.getAttribute(name)\<close> (\<open>null\<close> is \<open>None\<close>), \<open>el.hasAttribute(name)\<close> and
  \<open>el.setAttribute(name, value)\<close> on an element held by value.\<close>

definition getAttribute :: "node \<Rightarrow> string \<Rightarrow> string option" where
  "getAttribute el n = map_of (attributes el) n"

definition hasAttribute :: "node \<Rightarrow> string \<Rightarrow> bool" where
  "hasAttribute el n = (map_of (attributes el) n \<noteq> None)"

fun setAttr :: "string \<Rightarrow> string \<Rightarrow> attrs \<Rightarrow> attrs" where
  "setAttr n v [] = [(n, v)]"
| "setAttr n v ((m, u) # as) = (if m = n then (n, v) # as else (m, u) # setAttr n v as)"

fun setAttribute :: "string \<Rightarrow> string \<Rightarrow> node \<Rightarrow> node" where
  "setAttribute n v (Element i t a cs) = Element i t (setAttr n v a) cs"
| "setAttribute n v x = x"

text \<open>The elements of a forest in document order (pre-order), as \<open>querySelectorAll\<close>
  lists them for a selector given as a predicate.\<close>

fun elementsOf :: "node \<Rightarrow> node list" where
  "elementsOf (Element i t a cs) = Element i t a cs # concat (map elementsOf cs)"
| "elementsOf n = []"

definition elementsIn :: "node list \<Rightarrow> node list" where
  "elementsIn ns = concat (map elementsOf ns)"

definition querySelectorAll :: "(node \<Rightarrow> bool) \<Rightarrow> document \<Rightarrow> node list" where
  "querySelectorAll sel d = filter sel (elementsIn (childNodes d))"

text \<open>The selector \<open>tag[a1], tag[a2], ...\<close> of \<open>Util.getSelector\<close>; an empty tag is no
  restriction on the element's name.\<close>

definition selectorMatches :: "string \<Rightarrow> string list \<Rightarrow> node \<Rightarrow> bool" where
  "selectorMatches tag names el =
     ((tag = [] \<or> localName el = tag) \<and> list_ex (hasAttribute el) names)"

text \<open>
  Mutation of the tree through an element reference: each function rebuilds the forest
  with the element of the given identity changed, removed, or with new siblings beside it.
\<close>

fun setAttributeIn :: "nat \<Rightarrow> string \<Rightarrow> string \<Rightarrow> node list \<Rightarrow> node list" where
  "setAttributeIn k n v [] = []"
| "setAttributeIn k n v (Element i t a cs # ns) =
     (if i = k then Element i t (setAttr n v a) cs # ns
      else Element i t a (setAttributeIn k n v cs) # setAttributeIn k n v ns)"
| "setAttributeIn k n v (x # ns) = x # setAttributeIn k n v ns"

fun removeIn :: "nat \<Rightarrow> node list \<Rightarrow> node list" where
  "removeIn k [] = []"
| "removeIn k (Element i t a cs # ns) =
     (if i = k then ns else Element i t a (removeIn k cs) # removeIn k ns)"
| "removeIn k (x # ns) = x # removeIn k ns"

fun insertBeforeIn :: "nat \<Rightarrow> node list \<Rightarrow> node list \<Rightarrow> node list" where
  "insertBeforeIn k new [] = []"
| "insertBeforeIn k new (Element i t a cs # ns) =
     (if i = k then new @ Element i t a cs # ns
      else Element i t a (insertBeforeIn k new cs) # insertBeforeIn k new ns)"
| "insertBeforeIn k new (x # ns) = x # insertBeforeIn k new ns"

fun insertAfterIn :: "nat \<Rightarrow> node list \<Rightarrow> node list \<Rightarrow> node list" where
  "insertAfterIn k new [] = []"
| "insertAfterIn k new (Element i t a cs # ns) =
     (if i = k then Element i t a cs # new @ ns
      else Element i t a (insertAfterIn k new cs) # insertAfterIn k new ns)"
| "insertAfterIn k new (x # ns) = x # insertAfterIn k new ns"

definition ids :: "node list \<Rightarrow> nat list" where
  "ids ns = map nodeId (elementsIn ns)"

text \<open>
  \<open>el.insertAdjacentHTML('beforebegin' | 'afterend', ...)\<close> throws when the element has no
  parent or its parent is the document: the element must lie below a top-level node.
\<close>

definition hasParentElement :: "nat \<Rightarrow> document \<Rightarrow> bool" where
  "hasParentElement k d = (k \<in> set (ids (concat (map children (childNodes d)))))"

definition insertBefore :: "nat \<Rightarrow> node list \<Rightarrow> document \<Rightarrow> document option" where
  "insertBefore k new d =
     (if hasParentElement k d then Some (d\<lparr>childNodes := insertBeforeIn k new (childNodes d)\<rparr>)
      else None)"

definition insertAfter :: "nat \<Rightarrow> node list \<Rightarrow> document \<Rightarrow> document option" where
  "insertAfter k new d =
     (if hasParentElement k d then Some (d\<lparr>childNodes := insertAfterIn k new (childNodes d)\<rparr>)
      else None)"

definition removeEl :: "nat \<Rightarrow> document \<Rightarrow> document" where
  "removeEl k d = d\<lparr>childNodes := removeIn k (childNodes d)\<rparr>"

text \<open>An identity that no element of the document carries, for a node that markup
  insertion creates.\<close>

definition freshId :: "document \<Rightarrow> nat" where
  "freshId d = Suc (fold max (ids (childNodes d)) 0)"

subsection \<open>Serialization\<close>

text \<open>
  The HTML serialization that \<open>innerHTML\<close> and \<open>dom.serialize()\<close> produce: text is
  escaped except inside raw-text elements, attribute values are escaped and quoted, void
  elements have no end tag.
\<close>

definition voidElements :: "string list" where
  "voidElements = [''area'', ''base'', ''basefont'', ''bgsound'', ''br'', ''col'', ''embed'',
     ''frame'', ''hr'', ''img'', ''input'', ''keygen'', ''link'', ''meta'', ''param'',
     ''source'', ''track'', ''wbr'']"

definition rawTextElements :: "string list" where
  "rawTextElements = [''style'', ''script'', ''xmp'', ''iframe'', ''noembed'', ''noframes'',
     ''plaintext'', ''noscript'']"

fun escapeText :: "string \<Rightarrow> string" where
  "escapeText [] = []"
| "escapeText (c # cs) =
     (if c = CHR ''&'' then ''&amp;'' else if c = CHR ''<'' then ''&lt;''
      else if c = CHR ''>'' then ''&gt;'' else if c = CHR 0xA0 then ''&nbsp;'' else [c])
     @ escapeText cs"

fun escapeAttr :: "string \<Rightarrow> string" where
  "escapeAttr [] = []"
| "escapeAttr (c # cs) =
     (if c = CHR ''&'' then ''&amp;'' else if c = CHR 0x22 then ''&quot;''
      else if c = CHR 0xA0 then ''&nbsp;'' else [c])
     @ escapeAttr cs"

definition serializeAttrs :: "attrs \<Rightarrow> string" where
  "serializeAttrs as =
     concat (map (\<lambda>(n, v). '' '' @ n @ ''='' @ [CHR 0x22] @ escapeAttr v @ [CHR 0x22]) as)"

fun serializeNode :: "bool \<Rightarrow> node \<Rightarrow> string" where
  "serializeNode raw (Text s) = (if raw then s else escapeText s)"
| "serializeNode raw (Comment s) = ''<!--'' @ s @ ''-->''"
| "serializeNode raw (Element i t a cs) =
     ''<'' @ t @ serializeAttrs a @ ''>'' @
     (if t \<in> set voidElements then []
      else concat (map (serializeNode (t \<in> set rawTextElements)) cs) @ ''</'' @ t @ ''>'')"

text \<open>\<open>el.innerHTML\<close> and \<open>dom.serialize()\<close>.\<close>

definition innerHTML :: "node \<Rightarrow> string" where
  "innerHTML el = concat (map (serializeNode (localName el \<in> set rawTextElements)) (children el))"

definition serialize :: "document \<Rightarrow> string" where
  "serialize d =
     (case doctype d of None \<Rightarrow> [] | Some n \<Rightarrow> ''<!DOCTYPE '' @ n @ ''>'')
     @ concat (map (serializeNode False) (childNodes d))"

text \<open>\<open>document.documentElement\<close>, \<open>document.head\<close> and \<open>document.body\<close>; each is \<open>null\<close>
  when the tree has no such element.\<close>

definition documentElement :: "document \<Rightarrow> node option" where
  "documentElement d = find isElement (childNodes d)"

definition head :: "document \<Rightarrow> node option" where
  "head d =
     (case documentElement d of
        None \<Rightarrow> None
      | Some h \<Rightarrow> if localName h = ''html''
                  then find (\<lambda>n. isElement n \<and> localName n = ''head'') (children h) else None)"

definition body :: "document \<Rightarrow> node option" where
  "body d =
     (case documentElement d of
        None \<Rightarrow> None
      | Some h \<Rightarrow> if localName h = ''html''
                  then find (\<lambda>n. isElement n \<and> (localName n = ''body'' \<or> localName n = ''frameset''))
                         (children h)
                  else None)"

subsection \<open>The collaborators\<close>

text \<open>
  The parser, the XML serializer, URL resolution and \<open>path.resolve\<close> are libraries
  outside the repository: the model takes them as functions. \<open>parseDocument\<close> is
  \<open>new JSDOM(src, {url: 'https://localhost'})\<close>; \<open>parseMarkup k s\<close> is the fragment
  parser behind \<open>insertAdjacentHTML\<close>, numbering the elements it creates from \<open>k\<close> on;
  \<open>resolveUrl\<close> turns the value of an \<open>href\<close> or \<open>src\<close> attribute into the reflected
  property; \<open>nodeName\<close> is the property of that name, the local name in upper case for
  an HTML element and the name as it is for an SVG or MathML element; \<open>minJs\<close> and
  \<open>minCss\<close> are the minifiers.
\<close>

record platform =
  parseDocument :: "string \<Rightarrow> document"
  parseMarkup :: "nat \<Rightarrow> string \<Rightarrow> node list"
  xmlSerialize :: "node list \<Rightarrow> string"
  resolveUrl :: "string \<Rightarrow> string"
  pathResolve :: "string \<Rightarrow> string"
  minJs :: "string \<Rightarrow> string"
  minCss :: "string \<Rightarrow> string"
  nodeName :: "node \<Rightarrow> string"

text \<open>The reflected \<open>el.href\<close> / \<open>el.src\<close>: empty when the attribute is absent.\<close>

definition urlProperty :: "platform \<Rightarrow> node \<Rightarrow> string \<Rightarrow> string" where
  "urlProperty pf el n = (case getAttribute el n of None \<Rightarrow> [] | Some v \<Rightarrow> resolveUrl pf v)"

subsection \<open>setSrc\<close>

text \<open>
  \<open>toLowerCase\<close> on code units below 256: the ASCII capitals and the capitals of Latin-1
  (\<open>0xC0\<close> to \<open>0xDE\<close> without \<open>0xD7\<close>) are lowered, other code units are left as they
  are. It also serves the case-insensitive comparison of a code unit with an ASCII letter
  of a pattern. \<open>toUpperCase\<close> is the upper-casing of ASCII letters that gives the
  \<open>nodeName\<close> of an HTML element.
\<close>

definition toLowerChar :: "char \<Rightarrow> char" where
  "toLowerChar c =
     (case map_of (zip
        (''ABCDEFGHIJKLMNOPQRSTUVWXYZ'' @
         [CHR 0xC0, CHR 0xC1, CHR 0xC2, CHR 0xC3, CHR 0xC4, CHR 0xC5, CHR 0xC6, CHR 0xC7,
          CHR 0xC8, CHR 0xC9, CHR 0xCA, CHR 0xCB, CHR 0xCC, CHR 0xCD, CHR 0xCE, CHR 0xCF,
          CHR 0xD0, CHR 0xD1, CHR 0xD2, CHR 0xD3, CHR 0xD4, CHR 0xD5, CHR 0xD6,
          CHR 0xD8, CHR 0xD9, CHR 0xDA, CHR 0xDB, CHR 0xDC, CHR 0xDD, CHR 0xDE])
        (''abcdefghijklmnopqrstuvwxyz'' @
         [CHR 0xE0, CHR 0xE1, CHR 0xE2, CHR 0xE3, CHR 0xE4, CHR 0xE5, CHR 0xE6, CHR 0xE7,
          CHR 0xE8, CHR 0xE9, CHR 0xEA, CHR 0xEB, CHR 0xEC, CHR 0xED, CHR 0xEE, CHR 0xEF,
          CHR 0xF0, CHR 0xF1, CHR 0xF2, CHR 0xF3, CHR 0xF4, CHR 0xF5, CHR 0xF6,
          CHR 0xF8, CHR 0xF9, CHR 0xFA, CHR 0xFB, CHR 0xFC, CHR 0xFD, CHR 0xFE])) c of
        None \<Rightarrow> c | Some l \<Rightarrow> l)"

definition toLowerCase :: "string \<Rightarrow> string" where
  "toLowerCase s = map toLowerChar s"

definition toUpperChar :: "char \<Rightarrow> char" where
  "toUpperChar c =
     (case map_of (zip ''abcdefghijklmnopqrstuvwxyz'' ''ABCDEFGHIJKLMNOPQRSTUVWXYZ'') c of
        None \<Rightarrow> c | Some l \<Rightarrow> l)"

definition toUpperCase :: "string \<Rightarrow> string" where
  "toUpperCase s = map toUpperChar s"

text \<open>A pattern of fixed length: a literal matched without regard to case, or the atom
  \<open>.\<close>. \<open>matchesAt\<close> tests the pattern at the start of the text.\<close>

datatype atom = Lit char | AnyChar

fun matchesAt :: "atom list \<Rightarrow> string \<Rightarrow> bool" where
  "matchesAt [] s = True"
| "matchesAt (a # as) [] = False"
| "matchesAt (Lit l # as) (c # cs) = (toLowerChar c = toLowerChar l \<and> matchesAt as cs)"
| "matchesAt (AnyChar # as) (c # cs) = (\<not> isLineTerminator c \<and> matchesAt as cs)"

fun removeAllPat :: "atom list \<Rightarrow> string \<Rightarrow> string" where
  "removeAllPat p [] = []"
| "removeAllPat p (c # cs) =
     (if p \<noteq> [] \<and> matchesAt p (c # cs) then removeAllPat p (drop (length p - 1) cs)
      else c # removeAllPat p cs)"

text \<open>The pattern \<open>/ xmlns="http:\/\/www.w3.org\/1999\/xhtml"/gmi\<close>.\<close>

definition xmlnsPattern :: "atom list" where
  "xmlnsPattern =
     map Lit ('' xmlns='' @ [CHR 0x22] @ ''http://www'') @ [AnyChar] @ map Lit ''w3'' @ [AnyChar]
     @ map Lit (''org/1999/xhtml'' @ [CHR 0x22])"

text \<open>The pattern \<open>/ns(\d)*?:(?:href)/gmi\<close>: \<open>nsPrefixLength s\<close> is the length of the match
  at the start of \<open>s\<close>, without the final \<open>href\<close>, when there is one.\<close>

definition isDigit :: "char \<Rightarrow> bool" where
  "isDigit c = (c \<in> set ''0123456789'')"

definition nsPrefixLength :: "string \<Rightarrow> nat option" where
  "nsPrefixLength s =
     (if matchesAt (map Lit ''ns'') s
      then (let ds = takeWhile isDigit (drop 2 s)
            in if matchesAt (map Lit '':href'') (drop (2 + length ds) s)
               then Some (2 + length ds + 1) else None)
      else None)"

fun stripNsPrefix :: "string \<Rightarrow> string" where
  "stripNsPrefix [] = []"
| "stripNsPrefix (c # cs) =
     (case nsPrefixLength (c # cs) of
        Some n \<Rightarrow> ''href'' @ stripNsPrefix (drop (n + 4 - 1) cs)
      | None \<Rightarrow> c # stripNsPrefix cs)"

text \<open>
  What \<open>setSrc\<close> is given: a document fragment (no \<open>window\<close>) or a parsed document.
\<close>

datatype handle = Fragment "node list" | Window document

definition setSrc :: "platform \<Rightarrow> handle \<Rightarrow> error + string" where
  "setSrc pf h =
     (case h of
        Fragment ns \<Rightarrow> Inr (stripNsPrefix (removeAllPat xmlnsPattern (xmlSerialize pf ns)))
      | Window d \<Rightarrow>
          (let isFullDoc = (doctype d \<noteq> None) in
           if isFullDoc then Inr (serialize d)
           else (case head d of
                   None \<Rightarrow> Inl TypeError
                 | Some h \<Rightarrow>
                     (case body d of
                        None \<Rightarrow> Inl TypeError
                      | Some b \<Rightarrow> Inr (innerHTML h @ innerHTML b)))))"

section \<open>Include Resolver: the document pass\<close>

text \<open>
  \<open>ReplaceInclude.hasAttribute\<close> followed by the test of \<open>replaceInclude\<close>: the value of the
  first include attribute that is a non-empty string.
\<close>

definition includeTarget :: "string list \<Rightarrow> node \<Rightarrow> string option" where
  "includeTarget attrInclude el =
     (case filter (\<lambda>v. v \<noteq> None \<and> v \<noteq> Some []) (map (getAttribute el) attrInclude) of
        [] \<Rightarrow> None
      | v # vs \<Rightarrow> v)"

text \<open>The element of a given identity in a forest, and the siblings after it.\<close>

definition findEl :: "nat \<Rightarrow> node list \<Rightarrow> node option" where
  "findEl k ns = find (\<lambda>n. nodeId n = k) (elementsIn ns)"

fun followingSiblings :: "nat \<Rightarrow> node list \<Rightarrow> node list option" where
  "followingSiblings k [] = None"
| "followingSiblings k (Element i t a cs # ns) =
     (if i = k then Some ns
      else (case followingSiblings k cs of
              Some r \<Rightarrow> Some r
            | None \<Rightarrow> followingSiblings k ns))"
| "followingSiblings k (x # ns) = followingSiblings k ns"

text \<open>\<open>getValidNextElement\<close>: the first following element sibling whose \<open>nodeName\<close> is not
  one of the invalid types.\<close>

definition invalidTypes :: "string list" where
  "invalidTypes = [''DESCRIPTION'', ''LINK'', ''META'', ''SCRIPT'', ''STYLE'', ''TEMPLATE'', ''TITLE'']"

definition getValidNextElement :: "platform \<Rightarrow> nat \<Rightarrow> document \<Rightarrow> node option" where
  "getValidNextElement pf k d =
     (case followingSiblings k (childNodes d) of
        None \<Rightarrow> None
      | Some ns \<Rightarrow> find (\<lambda>n. isElement n \<and> nodeName pf n \<notin> set invalidTypes) ns)"

text \<open>\<open>addAttributesToReplacedDOM\<close>: every attribute of the marker that is not an include
  attribute is set on the valid next element.\<close>

definition addAttributesToReplacedDOM ::
  "platform \<Rightarrow> string list \<Rightarrow> node \<Rightarrow> document \<Rightarrow> document" where
  "addAttributesToReplacedDOM pf attrInclude el d =
     (case getValidNextElement pf (nodeId el) d of
        None \<Rightarrow> d
      | Some targetEl \<Rightarrow>
          d\<lparr>childNodes :=
              fold (\<lambda>(n, v) ns. if n \<notin> set attrInclude then setAttributeIn (nodeId targetEl) n v ns else ns)
                (attributes el) (childNodes d)\<rparr>)"

text \<open>
  \<open>replaceInclude\<close> for one marker of the list \<open>includeItems\<close>. The marker is read from
  the tree as it is now; a marker that an earlier removal detached keeps its attributes,
  is still resolved (cache and disk), and leaves the document as it is. The nodes of the
  inserted markup get identities that neither the document nor a marker of the list
  carries. Every exception ends in \<open>Util.customError\<close>, which kills the process.
\<close>

definition replaceInclude ::
  "platform \<Rightarrow> string \<Rightarrow> bool \<Rightarrow> string list \<Rightarrow> node list \<Rightarrow> node
   \<Rightarrow> store \<times> world \<times> document \<Rightarrow> error + (store \<times> world \<times> document)" where
  "replaceInclude pf distPath disabled attrInclude includeItems item s =
     (let (st, w, d) = s;
          el = (case findEl (nodeId item) (childNodes d) of None \<Rightarrow> item | Some e \<Rightarrow> e);
          attached = (findEl (nodeId item) (childNodes d) \<noteq> None);
          fresh = max (freshId d) (Suc (fold max (map nodeId includeItems) 0))
      in case includeTarget attrInclude el of
           None \<Rightarrow> Inr s
         | Some p \<Rightarrow>
             (case includeContent disabled (pathResolve pf (distPath @ ''/'' @ p)) (st, w) of
                Inl e \<Rightarrow> Inl Killed
              | Inr (content, st', w') \<Rightarrow>
                  if \<not> attached then Inr (st', w', d)
                  else (case insertAfter (nodeId el) (parseMarkup pf fresh content) d of
                          None \<Rightarrow> Inl Killed
                        | Some d1 \<Rightarrow>
                            Inr (st', w',
                              removeEl (nodeId el) (addAttributesToReplacedDOM pf attrInclude el d1)))))"

text \<open>The loop of \<open>init\<close> over the markers, in document order.\<close>

fun replaceIncludes ::
  "platform \<Rightarrow> string \<Rightarrow> bool \<Rightarrow> string list \<Rightarrow> node list \<Rightarrow> node list
   \<Rightarrow> store \<times> world \<times> document \<Rightarrow> error + (store \<times> world \<times> document)" where
  "replaceIncludes pf distPath disabled attrInclude includeItems [] s = Inr s"
| "replaceIncludes pf distPath disabled attrInclude includeItems (item # items) s =
     (case replaceInclude pf distPath disabled attrInclude includeItems item s of
        Inl e \<Rightarrow> Inl e
      | Inr s' \<Rightarrow> replaceIncludes pf distPath disabled attrInclude includeItems items s')"

text \<open>
  \<open>ReplaceInclude.init\<close>. The guard \<open>if (!includeItems) return\<close> tests the node list
  itself, an object, and not its length.
\<close>

definition init ::
  "platform \<Rightarrow> string \<Rightarrow> bool \<Rightarrow> string list \<Rightarrow> string list option \<Rightarrow> string list option
   \<Rightarrow> fileInfo \<times> store \<times> world \<Rightarrow> error + (fileInfo \<times> store \<times> world)" where
  "init pf distPath disabled attrInclude allowType disallowType s =
     (let (f, st, w) = s in
      if \<not> isAllowedType (Some f) allowType disallowType then Inr s
      else
        let dom = parseDocument pf (fSrc f);
            includeItems = querySelectorAll (selectorMatches [] attrInclude) dom
        in if \<not> truthy (JObj ''[object NodeList]'') then Inr s
           else (case replaceIncludes pf distPath disabled attrInclude includeItems includeItems
                       (st, w, dom) of
                   Inl e \<Rightarrow> Inl e
                 | Inr (st', w', dom') \<Rightarrow>
                     (case setSrc pf (Window dom') of
                        Inl e \<Rightarrow> Inl e
                      | Inr text \<Rightarrow> Inr (f\<lparr>fSrc := text\<rparr>, st', w'))))"

section \<open>Bundle Engine\<close>

datatype assetType = CSS | JS

fun typeName :: "assetType \<Rightarrow> string" where
  "typeName CSS = ''css''"
| "typeName JS = ''js''"

fun elType :: "assetType \<Rightarrow> string" where
  "elType JS = ''script''"
| "elType CSS = ''link''"

fun pathAttr :: "assetType \<Rightarrow> string" where
  "pathAttr JS = ''src''"
| "pathAttr CSS = ''href''"

text \<open>
  The names every plain object inherits from \<open>Object.prototype\<close>: reading one of them
  from an object that has no own property of that name gives a function or an object.
\<close>

definition inheritedKeys :: "string list" where
  "inheritedKeys = [''constructor'', ''__proto__'', ''hasOwnProperty'', ''isPrototypeOf'',
     ''propertyIsEnumerable'', ''toLocaleString'', ''toString'', ''valueOf'',
     ''__defineGetter__'', ''__defineSetter__'', ''__lookupGetter__'', ''__lookupSetter__'']"

text \<open>
  \<open>getGroup\<close>: \<open>raw\<close> is the \<open>data-bundle\<close> attribute unless it is absent or empty, else the
  \<open>bundle\<close> attribute; \<open>raw.replace\<close> throws when that is \<open>null\<close>.
\<close>

definition rawGroup :: "node \<Rightarrow> string option" where
  "rawGroup el =
     (case getAttribute el ''data-bundle'' of
        None \<Rightarrow> getAttribute el ''bundle''
      | Some v \<Rightarrow> if v \<noteq> [] then Some v else getAttribute el ''bundle'')"

definition formatGroup :: "string \<Rightarrow> string" where
  "formatGroup raw = toLowerCase (map (\<lambda>c. if c = CHR '' '' then CHR ''-'' else c) raw)"

definition getGroup :: "node \<Rightarrow> error + (string \<times> string)" where
  "getGroup el = (case rawGroup el of None \<Rightarrow> Inl TypeError | Some raw \<Rightarrow> Inr (raw, formatGroup raw))"

text \<open>\<open>parseInt\<close> of an attribute value, in base ten: \<open>NaN\<close> is \<open>None\<close>.\<close>

definition digitValue :: "char \<Rightarrow> nat" where
  "digitValue c = (case map_of (zip ''0123456789'' [0, 1, 2, 3, 4, 5, 6, 7, 8, 9]) c of
                     None \<Rightarrow> 0 | Some n \<Rightarrow> n)"

definition parseInt :: "string option \<Rightarrow> int option" where
  "parseInt v =
     (case v of
        None \<Rightarrow> None
      | Some s \<Rightarrow>
          (let t = dropWhile (\<lambda>c. c \<in> set [CHR '' '', CHR 0x09, CHR 0x0A, CHR 0x0D]) s;
               neg = startsWith ''-'' t;
               u = (if startsWith ''-'' t \<or> startsWith ''+'' t then tl t else t);
               ds = takeWhile isDigit u;
               n = int (fold (\<lambda>c a. 10 * a + digitValue c) ds 0)
           in if ds = [] then None else Some (if neg then - n else n)))"

text \<open>
  The first loop of \<open>groupSrcAndInsertBundle\<close> for one target: the entry is appended to
  its group unless the group already has the path, and the target gets its index within
  the group. A group named like an inherited property reads as a truthy value that is no
  array, and \<open>map\<close> on it throws.
\<close>

type_synonym groups = "string \<rightharpoonup> entry list"

definition groupStep ::
  "platform \<Rightarrow> assetType \<Rightarrow> node \<Rightarrow> groups \<times> (string \<rightharpoonup> nat) \<times> document
   \<Rightarrow> error + (groups \<times> (string \<rightharpoonup> nat) \<times> document \<times> node)" where
  "groupStep pf ty target s =
     (let (bundleType, counters, d) = s;
          minify = (\<not> hasAttribute target ''no-minify'' \<and> \<not> hasAttribute target ''data-no-minify'')
      in case getGroup target of
           Inl e \<Rightarrow> Inl e
         | Inr (raw, formatted) \<Rightarrow>
             if formatted \<in> set inheritedKeys then Inl TypeError
             else
               let bundleGroup = (case bundleType formatted of None \<Rightarrow> [] | Some g \<Rightarrow> g);
                   p = urlProperty pf target (pathAttr ty);
                   bundleGroup' = (if p \<notin> set (map path bundleGroup)
                                   then bundleGroup @ [\<lparr>path = p, minify = minify\<rparr>]
                                   else bundleGroup);
                   n = (case counters formatted of None \<Rightarrow> 0 | Some k \<Rightarrow> k)
               in Inr (bundleType(formatted \<mapsto> bundleGroup'), counters(formatted \<mapsto> Suc n),
                       d\<lparr>childNodes :=
                            setAttributeIn (nodeId target) ''group-index'' (showNat n) (childNodes d)\<rparr>,
                       setAttribute ''group-index'' (showNat n) target))"

text \<open>The first loop: the store keeps what was added before an exception.\<close>

fun groupLoop ::
  "platform \<Rightarrow> assetType \<Rightarrow> node list \<Rightarrow> groups \<times> (string \<rightharpoonup> nat) \<times> document \<Rightarrow> node list
   \<Rightarrow> error option \<times> groups \<times> document \<times> node list" where
  "groupLoop pf ty [] (bundleType, counters, d) done = (None, bundleType, d, done)"
| "groupLoop pf ty (t # ts) (bundleType, counters, d) done =
     (case groupStep pf ty t (bundleType, counters, d) of
        Inl e \<Rightarrow> (Some e, bundleType, d, done)
      | Inr (bundleType', counters', d', t') \<Rightarrow>
          groupLoop pf ty ts (bundleType', counters', d') (done @ [t']))"

text \<open>
  The reference element that the inserted markup \<open><elType elOptions></elType>\<close> parses
  to (the group name is taken to hold no character that markup gives a meaning).
\<close>

definition referenceElement :: "nat \<Rightarrow> assetType \<Rightarrow> string \<Rightarrow> node" where
  "referenceElement k ty filePath =
     (case ty of
        JS \<Rightarrow> Element k ''script'' [(''src'', filePath)] []
      | CSS \<Rightarrow> Element k ''link'' [(''rel'', ''stylesheet''), (''href'', filePath)] [])"

text \<open>
  The second loop for one target: \<open>groupLen\<close> counts the targets whose \<open>data-bundle\<close> or
  \<open>bundle\<close> attribute is the raw name; the reference is inserted before the target whose
  index is \<open>groupLen - 1\<close>; the target is removed.
\<close>

definition insertStep ::
  "string \<Rightarrow> assetType \<Rightarrow> node list \<Rightarrow> node \<Rightarrow> document \<Rightarrow> error + document" where
  "insertStep bundleDistPath ty targets target d =
     (case getGroup target of
        Inl e \<Rightarrow> Inl e
      | Inr (raw, formatted) \<Rightarrow>
          let groupLen = length (filter (\<lambda>t. getAttribute t ''data-bundle'' = Some raw
                                              \<or> getAttribute t ''bundle'' = Some raw) targets);
              groupIndex = parseInt (getAttribute target ''group-index'');
              isLast = (groupIndex = Some (int groupLen - 1));
              filePath = ''/'' @ bundleDistPath @ ''/bundle-'' @ formatted @ ''.'' @ typeName ty
          in if isLast
             then (case insertBefore (nodeId target) [referenceElement (freshId d) ty filePath] d of
                     None \<Rightarrow> Inl DOMException
                   | Some d' \<Rightarrow> Inr (removeEl (nodeId target) d'))
             else Inr (removeEl (nodeId target) d))"

fun insertLoop ::
  "string \<Rightarrow> assetType \<Rightarrow> node list \<Rightarrow> node list \<Rightarrow> document \<Rightarrow> error option \<times> document" where
  "insertLoop bundleDistPath ty targets [] d = (None, d)"
| "insertLoop bundleDistPath ty targets (t # ts) d =
     (case insertStep bundleDistPath ty targets t d of
        Inl e \<Rightarrow> (Some e, d)
      | Inr d' \<Rightarrow> insertLoop bundleDistPath ty targets ts d')"

text \<open>
  \<open>groupSrcAndInsertBundle\<close>: both loops. The function is \<open>async\<close> and is not awaited, so
  an exception becomes a rejected promise: the result holds it beside the store and the
  document as they were when it was thrown.
\<close>

definition groupSrcAndInsertBundle ::
  "platform \<Rightarrow> string \<Rightarrow> assetType \<Rightarrow> node list \<Rightarrow> groups \<times> document
   \<Rightarrow> error option \<times> groups \<times> document" where
  "groupSrcAndInsertBundle pf bundleDistPath ty targets s =
     (case groupLoop pf ty targets (fst s, Map.empty, snd s) [] of
        (Some e, bundleType, d, done) \<Rightarrow> (Some e, bundleType, d)
      | (None, bundleType, d, indexed) \<Rightarrow>
          (case insertLoop bundleDistPath ty indexed indexed d of
             (r, d') \<Rightarrow> (r, bundleType, d')))"

text \<open>
  The bundle options: \<open>bundleOff\<close> is \<open>bundle === false || bundle.enabled === false\<close>,
  \<open>devWithoutBundle\<close> is \<open>NODE_ENV === 'development' && !BUNDLE\<close>.
\<close>

record bundleConfig =
  bundleOff :: bool
  devWithoutBundle :: bool
  bundleDir :: string

text \<open>
  \<open>Bundle.add\<close> for one file: the updated file and store, and the errors of the call (the
  rejections of the two passes, an exception of \<open>setSrc\<close>).
\<close>

definition add ::
  "platform \<Rightarrow> bundleConfig \<Rightarrow> string list option \<Rightarrow> string list option \<Rightarrow> fileInfo \<times> store
   \<Rightarrow> fileInfo \<times> store \<times> error list" where
  "add pf cfg allowType disallowType s =
     (let (f, st) = s in
      if bundleOff cfg then (f, st, [])
      else if devWithoutBundle cfg then (f, st, [])
      else if \<not> isAllowedType (Some f) allowType disallowType then (f, st, [])
      else
        let dom = parseDocument pf (fSrc f);
            links = querySelectorAll (selectorMatches ''link'' [''data-bundle'', ''bundle'']) dom;
            scripts = querySelectorAll (selectorMatches ''script'' [''data-bundle'', ''bundle'']) dom
        in if length links + length scripts = 0 then (f, st, [])
           else
             (case groupSrcAndInsertBundle pf (bundleDir cfg) CSS links (bundleCss st, dom) of
                (e1, css, d1) \<Rightarrow>
                  (case groupSrcAndInsertBundle pf (bundleDir cfg) JS scripts (bundleJs st, d1) of
                     (e2, js, d2) \<Rightarrow>
                       (let st' = st\<lparr>bundleCss := css, bundleJs := js\<rparr>;
                            rejected = (case e1 of None \<Rightarrow> [] | Some e \<Rightarrow> [e])
                                       @ (case e2 of None \<Rightarrow> [] | Some e \<Rightarrow> [e])
                        in case setSrc pf (Window d2) of
                             Inl e \<Rightarrow> (f, st', rejected @ [e])
                           | Inr text \<Rightarrow> (f\<lparr>fSrc := text\<rparr>, st', rejected)))))"

text \<open>The add phase over the files of a run, in order.\<close>

fun addAll ::
  "platform \<Rightarrow> bundleConfig \<Rightarrow> string list option \<Rightarrow> string list option \<Rightarrow> fileInfo list \<Rightarrow> store
   \<Rightarrow> store" where
  "addAll pf cfg allowType disallowType [] st = st"
| "addAll pf cfg allowType disallowType (f # fs) st =
     addAll pf cfg allowType disallowType fs (fst (snd (add pf cfg allowType disallowType (f, st))))"

text \<open>
  The build phase for one group. \<open>getSrc\<close> reads the entry's file below \<open>srcPath\<close> (the
  part of the path after the last \<open>localhost\<close>) and minifies it when the entry says so;
  \<open>buildBundle\<close> concatenates the sources in the order of the entries and writes the
  bundle file.
\<close>

definition getSrc ::
  "platform \<Rightarrow> string \<Rightarrow> assetType \<Rightarrow> entry \<Rightarrow> world \<Rightarrow> error + (string \<times> world)" where
  "getSrc pf srcPath ty e w =
     (if path e = [] then Inr ([], w)
      else
        let pathFormatted = last (splitStr ''localhost'' (path e));
            f = srcPath @ ''/'' @ pathFormatted;
            w' = w\<lparr>reads := reads w @ [f]\<rparr>
        in case disk w f of
             None \<Rightarrow> Inl Killed
           | Some text \<Rightarrow>
               Inr (if minify e then (case ty of JS \<Rightarrow> minJs pf text | CSS \<Rightarrow> minCss pf text)
                    else text, w'))"

fun bundledSrc ::
  "platform \<Rightarrow> string \<Rightarrow> assetType \<Rightarrow> entry list \<Rightarrow> world \<Rightarrow> error + (string \<times> world)" where
  "bundledSrc pf srcPath ty [] w = Inr ([], w)"
| "bundledSrc pf srcPath ty (e # es) w =
     (case getSrc pf srcPath ty e w of
        Inl err \<Rightarrow> Inl err
      | Inr (text, w') \<Rightarrow>
          (case bundledSrc pf srcPath ty es w' of
             Inl err \<Rightarrow> Inl err
           | Inr (rest, w'') \<Rightarrow> Inr (text @ rest, w'')))"

definition buildBundle ::
  "platform \<Rightarrow> string \<Rightarrow> string \<Rightarrow> string \<Rightarrow> assetType \<Rightarrow> string \<Rightarrow> entry list \<Rightarrow> world
   \<Rightarrow> error + world" where
  "buildBundle pf srcPath distPath bundleDistPath ty key paths w =
     (case bundledSrc pf srcPath ty paths w of
        Inl err \<Rightarrow> Inl err
      | Inr (text, w') \<Rightarrow>
          Inr (w'\<lparr>disk := (disk w')
                  (distPath @ ''/'' @ bundleDistPath @ ''/bundle-'' @ key @ ''.'' @ typeName ty \<mapsto> text)\<rparr>))"

section \<open>Active-Link Annotator\<close>

text \<open>The first piece of a split (a split has at least one piece).\<close>

definition firstPiece :: "string list \<Rightarrow> string" where
  "firstPiece ps = (case ps of [] \<Rightarrow> [] | x # xs \<Rightarrow> x)"

text \<open>
  \<open>Util.getFileName\<close>. \<open>lastPart.split\<close> throws when the path has no non-empty segment;
  the name is \<open>undefined\<close> for an \<open>index\<close> file with no segment before it.
\<close>

definition getFileName :: "string \<Rightarrow> string \<Rightarrow> error + string option" where
  "getFileName p distPath =
     (let splitOnSlash = filter (\<lambda>s. s \<noteq> []) (splitStr ''/'' p)
      in if splitOnSlash = [] then Inl TypeError
         else
           let lastPart = last splitOnSlash;
               fileName = Some (firstPiece (splitStr ''.'' lastPart));
               fileName1 = (if fileName = Some ''index''
                            then at splitOnSlash (int (length splitOnSlash) - 2) else fileName);
               fileName2 = (if fileName1 = Some distPath then Some ''/'' else fileName1)
           in Inr fileName2)"

text \<open>
  \<open>linkIsParent\<close>: the parts of the page path after \<open>distPath/\<close>, without the last one;
  the link name is one of them and is not the last of them. The early exit returns
  \<open>undefined\<close>, which the caller reads as false.
\<close>

definition pagePathParts :: "string \<Rightarrow> string \<Rightarrow> string list" where
  "pagePathParts distPath pagePath =
     (case at (splitStr (distPath @ ''/'') pagePath) 1 of
        None \<Rightarrow> []
      | Some pagePathSplit \<Rightarrow>
          if pagePathSplit = [] then [] else butlast (splitStr ''/'' pagePathSplit))"

definition linkIsParent :: "string \<Rightarrow> string \<Rightarrow> string option \<Rightarrow> bool" where
  "linkIsParent distPath pagePath linkPath =
     (case at (splitStr (distPath @ ''/'') pagePath) 1 of
        None \<Rightarrow> False
      | Some pagePathSplit \<Rightarrow>
          if pagePathSplit = [] then False
          else
            let parts = butlast (splitStr ''/'' pagePathSplit);
                isActivePage = (linkPath = at parts (int (length parts) - 1));
                isHierarchyPage = (case linkPath of None \<Rightarrow> False | Some l \<Rightarrow> l \<in> set parts)
            in \<not> isActivePage \<and> isHierarchyPage)"

text \<open>\<open>setActive\<close>: which of the two marks, if any, the link gets. \<open>href\<close> is the reflected
  property \<open>link.href\<close>, an absolute URL on \<open>https://localhost\<close> for a local link.\<close>

datatype linkState = Active | ActiveParent | Inactive

definition setActive :: "string \<Rightarrow> string \<Rightarrow> string \<Rightarrow> error + linkState" where
  "setActive distPath pagePath href =
     (case getFileName pagePath distPath of
        Inl e \<Rightarrow> Inl e
      | Inr currPath \<Rightarrow>
          (case getFileName href distPath of
             Inl e \<Rightarrow> Inl e
           | Inr linkPath \<Rightarrow>
               let isParent = linkIsParent distPath pagePath linkPath
               in Inr (if linkPath = currPath then Active
                       else if isParent then ActiveParent else Inactive)))"

text \<open>
  \<open>setActiveLink\<close> and \<open>setParentActiveLink\<close> write the mark as the attribute
  \<open>data-<state>\<close> or as a class. \<open>classList.add\<close> throws on an empty token or one with
  white space, and rewrites the \<open>class\<close> attribute from the token set.
\<close>

definition isWhitespace :: "char \<Rightarrow> bool" where
  "isWhitespace c = (c \<in> set [CHR '' '', CHR 0x09, CHR 0x0A, CHR 0x0C, CHR 0x0D])"

fun tokensFrom :: "string \<Rightarrow> string \<Rightarrow> string list" where
  "tokensFrom acc [] = (if acc = [] then [] else [acc])"
| "tokensFrom acc (c # cs) =
     (if isWhitespace c then (if acc = [] then [] else [acc]) @ tokensFrom [] cs
      else tokensFrom (acc @ [c]) cs)"

fun tokenSet :: "string list \<Rightarrow> string list \<Rightarrow> string list" where
  "tokenSet seen [] = seen"
| "tokenSet seen (t # ts) = tokenSet (if t \<in> set seen then seen else seen @ [t]) ts"

fun joinWith :: "string \<Rightarrow> string list \<Rightarrow> string" where
  "joinWith sep [] = []"
| "joinWith sep [x] = x"
| "joinWith sep (x # y # ys) = x @ sep @ joinWith sep (y # ys)"

definition classListAdd :: "string \<Rightarrow> node \<Rightarrow> error + node" where
  "classListAdd token el =
     (if token = [] \<or> list_ex isWhitespace token then Inl DOMException
      else
        let tokens = tokenSet [] (case getAttribute el ''class'' of
                                     None \<Rightarrow> [] | Some v \<Rightarrow> tokensFrom [] v)
        in Inr (setAttribute ''class''
                  (joinWith '' '' (if token \<in> set tokens then tokens else tokens @ [token])) el))"

record activeConfig =
  isAttribute :: bool
  attrActive :: string
  attrActiveParent :: string

definition markLink :: "activeConfig \<Rightarrow> linkState \<Rightarrow> node \<Rightarrow> error + node" where
  "markLink cfg state link =
     (case state of
        Inactive \<Rightarrow> Inr link
      | Active \<Rightarrow>
          if isAttribute cfg then Inr (setAttribute (''data-'' @ attrActive cfg) [] link)
          else classListAdd (attrActive cfg) link
      | ActiveParent \<Rightarrow>
          if isAttribute cfg then Inr (setAttribute (''data-'' @ attrActiveParent cfg) [] link)
          else classListAdd (attrActiveParent cfg) link)"

text \<open>
  \<open>setActive\<close> with its two callees, for one link of the page: the link after the call.
\<close>

definition annotate :: "platform \<Rightarrow> activeConfig \<Rightarrow> string \<Rightarrow> string \<Rightarrow> node \<Rightarrow> error + node" where
  "annotate pf cfg distPath pagePath link =
     (case setActive distPath pagePath (urlProperty pf link ''href'') of
        Inl e \<Rightarrow> Inl e
      | Inr state \<Rightarrow> markLink cfg state link)"

text \<open>
  The words of the specification, to compare with the code: the directory path of the
  current page is the list of the segments of its path below \<open>distPath\<close>, without the file
  name.
\<close>

definition pageDirectory :: "string \<Rightarrow> string \<Rightarrow> string list" where
  "pageDirectory distPath pagePath =
     (if startsWith (distPath @ ''/'') pagePath
      then butlast (splitStr ''/'' (drop (length distPath + 1) pagePath))
      else [])"

section \<open>Template Interpolator\<close>

text \<open>\<open>obj[key]\<close> on the data object, a plain object: an own property, else an inherited
  one, else \<open>undefined\<close>.\<close>

definition inheritedValue :: "string \<Rightarrow> jsval" where
  "inheritedValue k =
     (if k = ''__proto__'' then JObj ''[object Object]''
      else if k = ''constructor'' then JObj ''function Object() { [native code] }''
      else JObj (''function '' @ k @ ''() { [native code] }''))"

definition propGet :: "(string \<rightharpoonup> jsval) \<Rightarrow> string \<Rightarrow> jsval" where
  "propGet obj k =
     (case obj k of
        Some v \<Rightarrow> v
      | None \<Rightarrow> if k \<in> set inheritedKeys then inheritedValue k else JUndefined)"

text \<open>
  The pattern \<open>/\${[^{](.*?)}/g\<close>. \<open>lazyToBrace\<close> is \<open>(.*?)}\<close>: the shortest run of
  characters other than line terminators that a closing brace follows. \<open>templateKeyAt s\<close>
  is the key \<open>src[offset+2]\<close> followed by the group, for a match at the start of \<open>s\<close>; the
  match is \<open>${\<close>, the key and \<open>}\<close>.
\<close>

fun lazyToBrace :: "string \<Rightarrow> string option" where
  "lazyToBrace [] = None"
| "lazyToBrace (c # cs) =
     (if c = CHR ''}'' then Some []
      else if isLineTerminator c then None
      else (case lazyToBrace cs of None \<Rightarrow> None | Some g \<Rightarrow> Some (c # g)))"

fun templateKeyAt :: "string \<Rightarrow> string option" where
  "templateKeyAt (d # b # c # cs) =
     (if d = CHR ''$'' \<and> b = CHR ''{'' \<and> c \<noteq> CHR ''{''
      then (case lazyToBrace cs of None \<Rightarrow> None | Some g \<Rightarrow> Some (c # g))
      else None)"
| "templateKeyAt s = None"

text \<open>\<open>replaceTemplateVars\<close>: every match, from left to right, is replaced by
  \<open>obj[key] || match\<close>, converted to a string.\<close>

fun replaceTemplateVars :: "string \<Rightarrow> (string \<rightharpoonup> jsval) \<Rightarrow> string" where
  "replaceTemplateVars [] obj = []"
| "replaceTemplateVars (x # xs) obj =
     (case templateKeyAt (x # xs) of
        None \<Rightarrow> x # replaceTemplateVars xs obj
      | Some key \<Rightarrow>
          (let v = propGet obj key; m = ''${'' @ key @ ''}''
           in if truthy v then toStr v else m)
          @ replaceTemplateVars (drop (length key + 2) xs) obj)"

section \<open>Directory conversion\<close>

text \<open>\<open>Util.getFileParts\<close> and \<open>getSrcConfig\<close> with \<open>excludeSrc\<close>, for a path given as a
  string: \<open>undefined\<close> for the empty path.\<close>

definition getSrcConfig :: "bool \<Rightarrow> string \<Rightarrow> fileInfo option" where
  "getSrcConfig disabled fileName =
     (if fileName = [] then None
      else
        let fileSplit = splitStr ''/'' fileName;
            lastName = last fileSplit;
            fileNameIfIndex = (if \<not> disabled \<and> lastName = ''index.html''
                               then at fileSplit (int (length fileSplit) - 2) else None);
            fileNameSplit = splitStr ''.'' lastName
        in Some \<lparr>fExt = at fileNameSplit 1, fName = firstPiece fileNameSplit,
                 fNameIfIndex = fileNameIfIndex, fPath = fileName, fSrc = []\<rparr>)"

text \<open>\<open>files.indexOf(x)\<close>: the first index, \<open>-1\<close> is \<open>None\<close>.\<close>

fun indexOf :: "'a list \<Rightarrow> 'a \<Rightarrow> nat option" where
  "indexOf [] x = None"
| "indexOf (y # ys) x = (if y = x then Some 0 else map_option Suc (indexOf ys x))"

text \<open>
  \<open>createDirectory\<close> for one entry of the pending files: the early exits leave everything
  as it is; otherwise the directory is made, the page is moved, and the entry is
  rewritten. A failed \<open>mkdirp\<close> or \<open>rename\<close> rejects the promise, and \<open>promiseAll\<close> kills
  the process.
\<close>

definition createDirectory ::
  "bool \<Rightarrow> string list \<Rightarrow> string list option \<Rightarrow> string list option \<Rightarrow> string list \<Rightarrow> string
   \<Rightarrow> string list \<times> world \<Rightarrow> error + (string list \<times> world)" where
  "createDirectory disabled convertExcludePaths allowType disallowType excludePaths fileName s =
     (let (files, w) = s; fo = getSrcConfig disabled fileName
      in if \<not> isAllowedType fo allowType disallowType then Inr s
         else (case fo of
                 None \<Rightarrow> Inr s
               | Some f \<Rightarrow>
                   if fName f = ''index'' then Inr s
                   else if filter (\<lambda>str. includesStr str (fPath f)) (excludePaths @ convertExcludePaths) \<noteq> []
                   then Inr s
                   else
                     let filePath = firstPiece (splitStr ''.'' (fPath f)) in
                     if disk w filePath \<noteq> None then Inl Killed
                     else (case disk w (filePath @ ''.html'') of
                             None \<Rightarrow> Inl Killed
                           | Some text \<Rightarrow>
                               (case indexOf files fileName of
                                  None \<Rightarrow> Inl Killed
                                | Some i \<Rightarrow>
                                    Inr (files[i := replaceFirst ''index/index.html'' ''index.html''
                                                    (replaceFirst ''.html'' ''/index.html'' (files ! i))],
                                         w\<lparr>dirs := insert filePath (dirs w),
                                           disk := (disk w)(filePath @ ''.html'' := None,
                                                            filePath @ ''/index.html'' \<mapsto> text)\<rparr>)))))"

text \<open>\<open>CreateDirFromFile.init\<close>: nothing when the conversion is disabled; otherwise every
  entry that the pending files hold at the start is converted.\<close>

fun createDirectories ::
  "bool \<Rightarrow> string list \<Rightarrow> string list option \<Rightarrow> string list option \<Rightarrow> string list \<Rightarrow> string list
   \<Rightarrow> string list \<times> world \<Rightarrow> error + (string list \<times> world)" where
  "createDirectories disabled cx allowType disallowType excludePaths [] s = Inr s"
| "createDirectories disabled cx allowType disallowType excludePaths (n # ns) s =
     (case createDirectory disabled cx allowType disallowType excludePaths n s of
        Inl e \<Rightarrow> Inl e
      | Inr s' \<Rightarrow> createDirectories disabled cx allowType disallowType excludePaths ns s')"

definition createDirFromFile ::
  "bool \<Rightarrow> string list \<Rightarrow> string list option \<Rightarrow> string list option \<Rightarrow> string list
   \<Rightarrow> string list \<times> world \<Rightarrow> error + (string list \<times> world)" where
  "createDirFromFile disabled cx allowType disallowType excludePaths s =
     (if disabled then Inr s
      else createDirectories disabled cx allowType disallowType excludePaths (fst s) s)"

section \<open>Example data\<close>

text \<open>The store at the start of a build run: no group, nothing cached.\<close>

definition store0 :: store where
  "store0 = \<lparr>bundleCss = Map.empty, bundleJs = Map.empty, cachedIncludes = Map.empty,
     cachedInline = Map.empty\<rparr>"

text \<open>
  A platform for the closed examples. Its URL resolution is that of a root-relative
  reference on the base \<open>https://localhost\<close>; its elements are HTML elements; the
  parser and the other libraries are set by each example that needs them.
\<close>

definition platform0 :: platform where
  "platform0 = \<lparr>parseDocument = (\<lambda>s. \<lparr>doctype = None, childNodes = []\<rparr>),
     parseMarkup = (\<lambda>k s. []), xmlSerialize = (\<lambda>ns. []),
     resolveUrl = (\<lambda>v. ''https://localhost'' @ v), pathResolve = (\<lambda>p. p),
     minJs = (\<lambda>s. s), minCss = (\<lambda>s. s),
     nodeName = (\<lambda>n. toUpperCase (localName n))\<rparr>"

text \<open>A file record of an \<open>.html\<close> page with a given path and source.\<close>

definition htmlFile :: "string \<Rightarrow> string \<Rightarrow> fileInfo" where
  "htmlFile p s = \<lparr>fExt = Some ''html'', fName = ''page'', fNameIfIndex = None, fPath = p, fSrc = s\<rparr>"

text \<open>Bundling switched on, with the default bundle directory.\<close>

definition bundling :: bundleConfig where
  "bundling = \<lparr>bundleOff = False, devWithoutBundle = False, bundleDir = ''assets/bundle''\<rparr>"

text \<open>
  The parse of a page whose only bundle marker is one vendor script; of a page with two
  markers of the group \<open>vendor\<close>, spelled \<open>Vendor\<close> and \<open>vendor\<close>, around a script that is
  not bundled; of the fragment \<open><p>one<br/>two</p>\<close>; and of a page with three markers
  spelled \<open>Vendor\<close>, \<open>vendor\<close>, \<open>vendor\<close>.
\<close>

definition vendorPage :: document where
  "vendorPage = \<lparr>doctype = Some ''html'', childNodes =
     [Element 0 ''html'' []
        [Element 1 ''head'' [] [],
         Element 2 ''body'' []
           [Element 3 ''script'' [(''bundle'', ''vendor''), (''src'', ''/assets/vendor.js'')] []]]]\<rparr>"

definition mixedPage :: document where
  "mixedPage = \<lparr>doctype = Some ''html'', childNodes =
     [Element 0 ''html'' []
        [Element 1 ''head'' [] [],
         Element 2 ''body'' []
           [Element 3 ''script'' [(''bundle'', ''Vendor''), (''src'', ''/assets/a.js'')] [],
            Element 4 ''script'' [(''src'', ''/assets/config.js'')] [],
            Element 5 ''script'' [(''bundle'', ''vendor''), (''src'', ''/assets/b.js'')] [],
            Element 6 ''script'' [(''src'', ''/assets/app.js'')] []]]]\<rparr>"

definition brPage :: document where
  "brPage = \<lparr>doctype = None, childNodes =
     [Element 0 ''html'' []
        [Element 1 ''head'' [] [],
         Element 2 ''body'' []
           [Element 3 ''p'' [] [Text ''one'', Element 4 ''br'' [] [], Text ''two'']]]]\<rparr>"

definition mixedPage3 :: document where
  "mixedPage3 = \<lparr>doctype = Some ''html'', childNodes =
     [Element 0 ''html'' []
        [Element 1 ''head'' [] [],
         Element 2 ''body'' []
           [Element 3 ''script'' [(''bundle'', ''Vendor''), (''src'', ''/assets/a.js'')] [],
            Element 4 ''script'' [(''bundle'', ''vendor''), (''src'', ''/assets/b.js'')] [],
            Element 5 ''script'' [(''src'', ''/assets/config.js'')] [],
            Element 6 ''script'' [(''bundle'', ''vendor''), (''src'', ''/assets/c.js'')] []]]]\<rparr>"

text \<open>
  The parse of a page with three markers of the group \<open>vendor\<close>, all spelled alike, the
  last one marked \<open>no-minify\<close>; and of a page with one include marker.
\<close>

definition orderedPage :: document where
  "orderedPage = \<lparr>doctype = Some ''html'', childNodes =
     [Element 0 ''html'' []
        [Element 1 ''head'' [] [],
         Element 2 ''body'' []
           [Element 3 ''script'' [(''bundle'', ''vendor''), (''src'', ''/assets/a.js'')] [],
            Element 4 ''script'' [(''src'', ''/assets/config.js'')] [],
            Element 5 ''script'' [(''data-bundle'', ''vendor''), (''src'', ''/assets/b.js'')] [],
            Element 6 ''script'' [(''bundle'', ''vendor''), (''no-minify'', []), (''src'', ''/assets/c.js'')] [],
            Element 7 ''script'' [(''src'', ''/assets/app.js'')] []]]]\<rparr>"

text \<open>The default configuration of the active links: the marks are the classes \<open>active\<close>
  and \<open>active-parent\<close>.\<close>

definition activeConfig0 :: activeConfig where
  "activeConfig0 = \<lparr>isAttribute = False, attrActive = ''active'', attrActiveParent = ''active-parent''\<rparr>"

definition includePage :: document where
  "includePage = \<lparr>doctype = Some ''html'', childNodes =
     [Element 0 ''html'' []
        [Element 1 ''head'' [] [],
         Element 2 ''body'' []
           [Element 3 ''main'' [] [Text ''Hi''],
            Element 4 ''div'' [(''include'', ''/includes/footer''), (''class'', ''wide'')] []]]]\<rparr>"

section \<open>The invariant of the bundle groups\<close>

text \<open>
  No group holds a path twice, in either bundle map. \<open>bundleOf\<close> is \<open>store.bundle[type]\<close>;
  \<open>sourceOf\<close> is the text that \<open>getSrc\<close> returns for an entry on a given disk.
\<close>

definition distinctPaths :: "groups \<Rightarrow> bool" where
  "distinctPaths g = (\<forall>k es. g k = Some es \<longrightarrow> distinct (map path es))"

definition storeInv :: "store \<Rightarrow> bool" where
  "storeInv st = (distinctPaths (bundleCss st) \<and> distinctPaths (bundleJs st))"

fun bundleOf :: "assetType \<Rightarrow> store \<Rightarrow> groups" where
  "bundleOf CSS st = bundleCss st"
| "bundleOf JS st = bundleJs st"

definition sourceOf :: "platform \<Rightarrow> string \<Rightarrow> assetType \<Rightarrow> world \<Rightarrow> entry \<Rightarrow> string" where
  "sourceOf pf srcPath ty w e =
     (if path e = [] then []
      else (case disk w (srcPath @ ''/'' @ last (splitStr ''localhost'' (path e))) of
              None \<Rightarrow> []
            | Some text \<Rightarrow>
                if minify e then (case ty of JS \<Rightarrow> minJs pf text | CSS \<Rightarrow> minCss pf text)
                else text))"

section \<open>Markers of one spelling\<close>

text \<open>
  \<open>groupKey\<close> is the formatted name under which the first loop counts a marker and
  \<open>withIndex\<close> the marker list as that loop leaves it, each marker carrying its
  \<open>group-index\<close>. A marker is well formed when it has a group name whose formatted form is
  not an inherited key of the group object. The markers of a page are spelled consistently
  when two markers are counted together by the first loop, or matched by the attribute
  comparison of the second loop, exactly when their raw names are the same.
  \<open>lastOfGroup\<close> says that no later marker has the raw name of the marker at a position.
\<close>

definition groupKey :: "node \<Rightarrow> string" where
  "groupKey t = (case rawGroup t of None \<Rightarrow> [] | Some r \<Rightarrow> formatGroup r)"

definition counterOf :: "(string \<rightharpoonup> nat) \<Rightarrow> string \<Rightarrow> nat" where
  "counterOf cn f = (case cn f of None \<Rightarrow> 0 | Some k \<Rightarrow> k)"

fun withIndex :: "(string \<rightharpoonup> nat) \<Rightarrow> node list \<Rightarrow> node list" where
  "withIndex cn [] = []"
| "withIndex cn (t # ts) =
     setAttribute ''group-index'' (showNat (counterOf cn (groupKey t))) t
     # withIndex (cn(groupKey t \<mapsto> Suc (counterOf cn (groupKey t)))) ts"

definition wellFormedMarker :: "node \<Rightarrow> bool" where
  "wellFormedMarker t = (case rawGroup t of None \<Rightarrow> False | Some r \<Rightarrow> formatGroup r \<notin> set inheritedKeys)"

definition consistentMarkers :: "node list \<Rightarrow> bool" where
  "consistentMarkers ts =
     (list_all wellFormedMarker ts
      \<and> list_all (\<lambda>t. list_all (\<lambda>u. (groupKey u = groupKey t \<or> getAttribute u ''data-bundle'' = rawGroup t
                                       \<or> getAttribute u ''bundle'' = rawGroup t)
                                      = (rawGroup u = rawGroup t)) ts) ts)"

definition lastOfGroup :: "node list \<Rightarrow> nat \<Rightarrow> bool" where
  "lastOfGroup ts i = list_all (\<lambda>u. rawGroup u \<noteq> rawGroup (ts ! i)) (drop (Suc i) ts)"

section \<open>Properties of the Include Resolver\<close>

subsection \<open>Path rules\<close>

lemma startsWith_take: "startsWith p s = (take (length p) s = p)"
  by (induction p s rule: startsWith.induct) auto

lemma replaceFirst_suffix_gen:
  assumes p: "p = q @ [z]" and n: "\<not> includesStr p (stem @ q)"
  shows "replaceFirst p r (stem @ p) = stem @ r"
  using n
proof (induction stem)
  case Nil
  have "startsWith p p" by (simp add: startsWith_take)
  moreover have "p \<noteq> []" using p by simp
  then obtain a as where "p = a # as" by (cases p) auto
  ultimately show ?case by simp
next
  case (Cons c cs)
  from Cons.prems have n1: "\<not> startsWith p (c # cs @ q)"
    and n2: "\<not> includesStr p (cs @ q)" by simp_all
  have "take (length p) (c # cs @ p) = take (length p) (c # cs @ q)"
    by (simp add: p)
  with n1 have "\<not> startsWith p (c # cs @ p)" unfolding startsWith_take by simp
  with Cons.IH [OF n2] show ?case by simp
qed

lemma replaceFirst_suffix:
  "\<not> includesStr ''.html'' (stem @ ''.htm'') \<Longrightarrow>
   replaceFirst ''.html'' r (stem @ ''.html'') = stem @ r"
  using replaceFirst_suffix_gen [of "''.html''" "''.htm''" "CHR ''l''" stem r] by simp

lemma hasExtension_suffix: "hasExtension (stem @ ''.html'')"
  by (induction stem) (auto simp: isLineTerminator_def)

lemma explicitExtension_split: "explicitExtension p \<Longrightarrow> p = stripExtension p @ ''.html''"
  unfolding explicitExtension_def stripExtension_def
  by (metis append_take_drop_id)

lemma startsWith_imp_includes: "p \<noteq> [] \<Longrightarrow> startsWith p s \<Longrightarrow> includesStr p s"
  by (cases s; cases p) auto

lemma hasExtension_imp_includes: "hasExtension p \<Longrightarrow> includesStr ''html'' p"
proof (induction p)
  case Nil
  then show ?case by simp
next
  case (Cons c cs)
  then show ?case using startsWith_imp_includes [of "''html''" cs] by auto
qed

text \<open>
  Claim C2, amended. For every regular include path, the path that \<open>fetchIncludeSrc\<close> reads
  follows four rules that exclude one another: conversion enabled and an explicit
  extension, the extension is stripped and \<open>/index.html\<close> appended; conversion enabled and
  no extension, \<open>/index.html\<close> is appended; conversion disabled and no extension, \<open>.html\<close>
  is appended; conversion disabled and an explicit extension, the path is used as it is.
\<close>

theorem formattedIncludePath_rules:
  assumes "regularPath p"
  shows "formattedIncludePath disabled p =
     (if \<not> disabled \<and> explicitExtension p then stripExtension p @ ''/index.html''
      else if \<not> disabled \<and> \<not> explicitExtension p then p @ ''/index.html''
      else if disabled \<and> \<not> explicitExtension p then p @ ''.html''
      else p)"
proof (cases "explicitExtension p")
  case True
  then have p: "p = stripExtension p @ ''.html''" by (rule explicitExtension_split)
  then have b: "butlast p = stripExtension p @ ''.htm''"
    by (metis butlast_append butlast_snoc append.assoc list.distinct(1) butlast.simps(2)
        append_Cons append_Nil)
  from assms True have n: "\<not> includesStr ''.html'' (stripExtension p @ ''.htm'')"
    by (simp add: regularPath_def b)
  have h: "hasExtension p" by (subst p) (rule hasExtension_suffix)
  have r: "replaceFirst ''.html'' ''/index.html'' p = stripExtension p @ ''/index.html''"
    by (subst p) (rule replaceFirst_suffix [OF n])
  show ?thesis using True h r by (simp add: formattedIncludePath_def Let_def)
next
  case False
  with assms have "\<not> includesStr ''html'' p" by (simp add: regularPath_def)
  then have "\<not> hasExtension p" using hasExtension_imp_includes by blast
  with False show ?thesis by (simp add: formattedIncludePath_def Let_def)
qed

theorem formattedIncludePath_rules_witness:
  "regularPath ''/dist/includes/footer.html'' \<and> regularPath ''/dist/includes/footer''
   \<and> formattedIncludePath False ''/dist/includes/footer.html'' = ''/dist/includes/footer/index.html''
   \<and> formattedIncludePath False ''/dist/includes/footer'' = ''/dist/includes/footer/index.html''
   \<and> formattedIncludePath True ''/dist/includes/footer'' = ''/dist/includes/footer.html''
   \<and> formattedIncludePath True ''/dist/includes/footer.html'' = ''/dist/includes/footer.html''"
proof -
  have e: "regularPath ''/dist/includes/footer.html''"
    by (simp add: regularPath_def explicitExtension_def)
  have n: "regularPath ''/dist/includes/footer''"
    by (simp add: regularPath_def explicitExtension_def)
  show ?thesis
    using e n formattedIncludePath_rules [OF e, of False] formattedIncludePath_rules [OF n, of False]
      formattedIncludePath_rules [OF n, of True] formattedIncludePath_rules [OF e, of True]
    by (simp add: explicitExtension_def stripExtension_def)
qed

text \<open>
  Claim C2 as stated fails: with conversion enabled, a path without an extension is not
  used as it is.
\<close>

theorem include_path_as_is_counterexample:
  "\<not> explicitExtension ''/dist/includes/footer''
   \<and> \<not> hasExtension ''/dist/includes/footer''
   \<and> formattedIncludePath False ''/dist/includes/footer'' \<noteq> ''/dist/includes/footer''"
  by (simp add: formattedIncludePath_def explicitExtension_def isLineTerminator_def)

text \<open>
  Paths that are not regular. The test of the code is the pattern \<open>/.html/\<close>, whose dot
  stands for any character, and the replacement is of the first \<open>.html\<close>: a path with a
  segment \<open>html\<close> and no extension is read as it is, and a path with an earlier \<open>.html\<close>
  has that one replaced. The comments of the code speak of the user adding or omitting
  \<open>.html\<close>; the four rules say nothing of these paths.
\<close>

lemma include_path_not_regular:
  "\<not> regularPath ''/var/www/html/site/dist/includes/footer''
   \<and> formattedIncludePath False ''/var/www/html/site/dist/includes/footer''
       = ''/var/www/html/site/dist/includes/footer''
   \<and> \<not> regularPath ''/srv/site.html/dist/includes/footer.html''
   \<and> formattedIncludePath False ''/srv/site.html/dist/includes/footer.html''
       = ''/srv/site/index.html/dist/includes/footer.html''"
  by (simp add: formattedIncludePath_def regularPath_def explicitExtension_def isLineTerminator_def)

subsection \<open>The include cache\<close>

lemma includeContent_hit:
  "cachedIncludes st p = Some c \<Longrightarrow> includeContent d p (st, w) = Inr (c, st, w)"
  by (simp add: includeContent_def cacheGet_def isCached_def)

lemma includeContent_stores:
  "includeContent d p (st, w) = Inr (c, st', w') \<Longrightarrow> cachedIncludes st' p = Some c"
  by (auto simp: includeContent_def cacheGet_def isCached_def fetchIncludeSrc_def Let_def
      split: option.splits if_splits)

lemma includeContent_keeps:
  "cachedIncludes st p = Some c \<Longrightarrow> includeContent d q (st, w) = Inr (c', st', w')
   \<Longrightarrow> cachedIncludes st' p = Some c"
  by (auto simp: includeContent_def cacheGet_def isCached_def fetchIncludeSrc_def Let_def
      split: option.splits if_splits)

lemma resolutions_keep:
  "cachedIncludes st p = Some c \<Longrightarrow> resolutions d rs (st, w) = Inr (cs, st', w')
   \<Longrightarrow> cachedIncludes st' p = Some c"
proof (induction rs arbitrary: st w cs)
  case Nil
  then show ?case by simp
next
  case (Cons r rs)
  obtain q dk where r: "r = (q, dk)" by (cases r)
  from Cons.prems(2) r obtain c1 st1 w1 cs1 where
    s1: "includeContent d q (st, w\<lparr>disk := dk\<rparr>) = Inr (c1, st1, w1)"
    and s2: "resolutions d rs (st1, w1) = Inr (cs1, st', w')"
    by (auto split: sum.splits)
  from includeContent_keeps [OF Cons.prems(1) s1] have "cachedIncludes st1 p = Some c" .
  from Cons.IH [OF this s2] show ?case .
qed

text \<open>
  Claim C5. Once a resolution of an include path has returned content \<open>c\<close>, the cache holds
  \<open>c\<close> for that path; after any further resolutions of any paths, whatever the disk holds
  by then, the cache still holds \<open>c\<close>, and a second resolution of the path returns \<open>c\<close> and
  leaves the store and the world, with its log of disk reads, as they are.
\<close>

theorem include_cache_write_once:
  assumes first: "includeContent d p sw0 = Inr (c, st1, w1)"
    and later: "resolutions d rs (st1, w1) = Inr (cs, st2, w2)"
  shows "cachedIncludes st1 p = Some c \<and> cachedIncludes st2 p = Some c
    \<and> includeContent d p (st2, w2\<lparr>disk := dk\<rparr>) = Inr (c, st2, w2\<lparr>disk := dk\<rparr>)"
proof -
  obtain st0 w0 where sw0: "sw0 = (st0, w0)" by (cases sw0)
  from first sw0 have a: "cachedIncludes st1 p = Some c" using includeContent_stores by blast
  from resolutions_keep [OF a later] have b: "cachedIncludes st2 p = Some c" .
  from a b includeContent_hit [OF b] show ?thesis by simp
qed

theorem include_cache_write_once_witness:
  "includeContent False ''/dist/includes/footer''
     (store0\<lparr>cachedIncludes := [''/dist/includes/footer'' \<mapsto> ''<footer></footer>'',
                                ''/dist/includes/nav'' \<mapsto> ''<nav></nav>'']\<rparr>,
      \<lparr>disk = Map.empty, dirs = {},
       reads = [''/dist/includes/footer/index.html'', ''/dist/includes/nav/index.html'']\<rparr>)
   = Inr (''<footer></footer>'',
      store0\<lparr>cachedIncludes := [''/dist/includes/footer'' \<mapsto> ''<footer></footer>'',
                                ''/dist/includes/nav'' \<mapsto> ''<nav></nav>'']\<rparr>,
      \<lparr>disk = Map.empty, dirs = {},
       reads = [''/dist/includes/footer/index.html'', ''/dist/includes/nav/index.html'']\<rparr>)"
proof -
  let ?w0 = "\<lparr>disk = [''/dist/includes/footer/index.html'' \<mapsto> ''<footer></footer>''],
               dirs = {}, reads = []\<rparr>"
  let ?st1 = "store0\<lparr>cachedIncludes := [''/dist/includes/footer'' \<mapsto> ''<footer></footer>'']\<rparr>"
  let ?w1 = "?w0\<lparr>reads := [''/dist/includes/footer/index.html'']\<rparr>"
  let ?dk = "[''/dist/includes/nav/index.html'' \<mapsto> ''<nav></nav>'']"
  let ?st2 = "store0\<lparr>cachedIncludes := [''/dist/includes/footer'' \<mapsto> ''<footer></footer>'',
                                ''/dist/includes/nav'' \<mapsto> ''<nav></nav>'']\<rparr>"
  let ?w2 = "\<lparr>disk = ?dk, dirs = {},
       reads = [''/dist/includes/footer/index.html'', ''/dist/includes/nav/index.html'']\<rparr>"
  have first: "includeContent False ''/dist/includes/footer'' (store0, ?w0)
      = Inr (''<footer></footer>'', ?st1, ?w1)"
    by (simp add: includeContent_def cacheGet_def isCached_def fetchIncludeSrc_def
        formattedIncludePath_def store0_def isLineTerminator_def Let_def)
  have later: "resolutions False [(''/dist/includes/nav'', ?dk)] (?st1, ?w1)
      = Inr ([''<nav></nav>''], ?st2, ?w2)"
    by (simp add: includeContent_def cacheGet_def isCached_def fetchIncludeSrc_def
        formattedIncludePath_def store0_def isLineTerminator_def Let_def)
  from include_cache_write_once [OF first later, of Map.empty]
  show ?thesis by simp
qed

text \<open>
  Claim C10. The cache test counts only \<open>undefined\<close> and \<open>null\<close> as a miss: the empty
  string, which is falsy, is a hit. So an include file or an inline file whose content is
  the empty string is cached by the first read, and a later reference, made when that
  entry is in the cache, gets the empty string with no disk read and no change of the
  store.
\<close>

theorem empty_content_is_cache_hit:
  "(isCached v \<longleftrightarrow> v \<noteq> JUndefined \<and> v \<noteq> JNull)
   \<and> \<not> truthy (JStr []) \<and> isCached (JStr [])
   \<and> (cachedIncludes st p = Some [] \<longrightarrow> includeContent d p (st, w) = Inr ([], st, w))
   \<and> (cachedInline st q = Some [] \<longrightarrow> inlineContent distPath q (st, w) = Inr ([], st, w))
   \<and> (cachedIncludes st p = None \<and> disk w (formattedIncludePath d p) = Some []
        \<longrightarrow> (\<exists>st' w'. includeContent d p (st, w) = Inr ([], st', w')
               \<and> cachedIncludes st' p = Some []))
   \<and> (cachedInline st q = None \<and> disk w (distPath @ q) = Some []
        \<longrightarrow> (\<exists>st' w'. inlineContent distPath q (st, w) = Inr ([], st', w')
               \<and> cachedInline st' q = Some []))"
  by (auto simp: isCached_def includeContent_def inlineContent_def cacheGet_def
      fetchIncludeSrc_def fetchInlineSrc_def Let_def)

theorem empty_content_is_cache_hit_witness:
  "includeContent False ''/dist/includes/empty''
     (store0\<lparr>cachedIncludes := [''/dist/includes/empty'' \<mapsto> []]\<rparr>,
      \<lparr>disk = Map.empty, dirs = {}, reads = []\<rparr>)
   = Inr ([], store0\<lparr>cachedIncludes := [''/dist/includes/empty'' \<mapsto> []]\<rparr>,
      \<lparr>disk = Map.empty, dirs = {}, reads = []\<rparr>)
   \<and> inlineContent ''dist'' ''/assets/empty.css''
     (store0\<lparr>cachedInline := [''/assets/empty.css'' \<mapsto> []]\<rparr>,
      \<lparr>disk = Map.empty, dirs = {}, reads = []\<rparr>)
   = Inr ([], store0\<lparr>cachedInline := [''/assets/empty.css'' \<mapsto> []]\<rparr>,
      \<lparr>disk = Map.empty, dirs = {}, reads = []\<rparr>)"
  using empty_content_is_cache_hit [of JUndefined
      "store0\<lparr>cachedIncludes := [''/dist/includes/empty'' \<mapsto> []]\<rparr>" "''/dist/includes/empty''"
      False "\<lparr>disk = Map.empty, dirs = {}, reads = []\<rparr>"]
    empty_content_is_cache_hit [of JUndefined
      "store0\<lparr>cachedInline := [''/assets/empty.css'' \<mapsto> []]\<rparr>" _ _ _ "''/assets/empty.css''" "''dist''"]
  by simp

section \<open>Properties of the Active-Link Annotator\<close>

lemma at_last: "xs \<noteq> [] \<Longrightarrow> at xs (int (length xs) - 1) = Some (last xs)"
  by (simp add: at_def last_conv_nth nat_diff_distrib')

lemma in_set_nonempty: "x \<in> set xs \<Longrightarrow> xs \<noteq> []"
  by auto

lemma parent_iff:
  "(lp \<noteq> at parts (int (length parts) - 1)
     \<and> (case lp of None \<Rightarrow> False | Some l \<Rightarrow> l \<in> set parts))
   \<longleftrightarrow> (\<exists>l. lp = Some l \<and> l \<in> set parts \<and> l \<noteq> last parts)"
proof (cases lp)
  case None
  then show ?thesis by simp
next
  case (Some l)
  show ?thesis
  proof (cases "l \<in> set parts")
    case True
    then have "parts \<noteq> []" by auto
    then have "at parts (int (length parts) - 1) = Some (last parts)" by (rule at_last)
    with Some True show ?thesis by auto
  next
    case False
    with Some show ?thesis by simp
  qed
qed

lemma map_of_setAttr: "map_of (setAttr n v as) m = (if m = n then Some v else map_of as m)"
  by (induction as) auto

lemma splitFrom_none: "\<not> includesStr sep s \<Longrightarrow> splitFrom sep acc s = [acc @ s]"
  by (induction s arbitrary: acc) auto

lemma splitFrom_prefix:
  assumes "sep \<noteq> []"
  shows "splitFrom sep acc (sep @ s) = acc # splitFrom sep [] s"
proof -
  from assms obtain c cs where sep: "sep = c # cs" by (cases sep) auto
  have "startsWith sep (sep @ s)" by (simp add: startsWith_take)
  then show ?thesis by (simp add: sep)
qed

lemma split_once:
  assumes "sep \<noteq> []" and "\<not> includesStr sep rel"
  shows "splitStr sep (sep @ rel) = [[], rel]"
proof -
  have "splitFrom sep [] (sep @ rel) = [] # splitFrom sep [] rel"
    using assms(1) by (rule splitFrom_prefix)
  moreover have "splitFrom sep [] rel = [rel]"
    using splitFrom_none [OF assms(2), of "[]"] by simp
  ultimately show ?thesis using assms(1) by (simp add: splitStr_def)
qed

lemma pagePathParts_directory:
  assumes "\<not> includesStr (distPath @ ''/'') rel"
  shows "pagePathParts distPath ((distPath @ ''/'') @ rel)
       = pageDirectory distPath ((distPath @ ''/'') @ rel)"
proof -
  define sep where "sep = distPath @ ''/''"
  have ne: "sep \<noteq> []" and len: "length sep = length distPath + 1"
    by (simp_all add: sep_def)
  have sp: "splitStr sep (sep @ rel) = [[], rel]"
    using ne assms unfolding sep_def [symmetric] by (rule split_once)
  have e: "butlast (splitStr ''/'' []) = []" by (simp add: splitStr_def)
  have "pagePathParts distPath (sep @ rel) = butlast (splitStr ''/'' rel)"
    unfolding pagePathParts_def sep_def [symmetric] sp using e by (simp add: at_def)
  moreover have "pageDirectory distPath (sep @ rel) = butlast (splitStr ''/'' rel)"
  proof -
    have len2: "Suc (length distPath) = length sep" by (simp add: sep_def)
    show ?thesis
      unfolding pageDirectory_def sep_def [symmetric] by (simp add: startsWith_take len2)
  qed
  ultimately show ?thesis unfolding sep_def by simp
qed

lemma linkIsParent_parts:
  "linkIsParent distPath pagePath linkPath \<longleftrightarrow>
      (\<exists>l. linkPath = Some l \<and> l \<in> set (pagePathParts distPath pagePath)
           \<and> l \<noteq> last (pagePathParts distPath pagePath))"
proof (cases "at (splitStr (distPath @ ''/'') pagePath) 1")
  case None
  then show ?thesis by (simp add: linkIsParent_def pagePathParts_def)
next
  case (Some pps)
  show ?thesis
  proof (cases "pps = []")
    case True
    with Some show ?thesis by (simp add: linkIsParent_def pagePathParts_def)
  next
    case False
    let ?parts = "butlast (splitStr ''/'' pps)"
    have pp: "pagePathParts distPath pagePath = ?parts"
      using Some False by (simp add: pagePathParts_def)
    have lp: "linkIsParent distPath pagePath linkPath \<longleftrightarrow>
        linkPath \<noteq> at ?parts (int (length ?parts) - 1)
        \<and> (case linkPath of None \<Rightarrow> False | Some l \<Rightarrow> l \<in> set ?parts)"
      using Some False by (simp add: linkIsParent_def Let_def)
    show ?thesis
      unfolding pp lp by (rule parent_iff)
  qed
qed

lemma markLink_inactive: "markLink cfg Inactive link = Inr link"
  by (simp add: markLink_def)

text \<open>
  Claim C6 fails on the code. The page \<open>dist/methodist/history/index.html\<close> has the name
  \<open>history\<close> and the directory path \<open>methodist/history\<close>; the link to \<open>/methodist\<close> has
  the name \<open>methodist\<close>, a segment of that directory path that is not its last: the claim
  marks the link active-parent. \<open>linkIsParent\<close> takes the page path after \<open>dist/\<close> as the
  second piece of a split on \<open>dist/\<close>, which ends where \<open>dist/\<close> is found again, inside
  \<open>methodist/\<close>: the piece is \<open>metho\<close>, no part is left, and the link is returned as it
  was. On the page \<open>dist/baptist/history/index.html\<close> the link to \<open>/baptist\<close> gets the class
  \<open>active-parent\<close>.
\<close>

theorem active_parent_missed_when_dist_recurs:
  "splitStr ''dist/'' ''dist/methodist/history/index.html'' = [[], ''metho'', ''history/index.html'']
   \<and> annotate platform0 activeConfig0 ''dist'' ''dist/methodist/history/index.html''
      (Element 7 ''a'' [(''href'', ''/methodist'')] [Text ''Methodist''])
    = Inr (Element 7 ''a'' [(''href'', ''/methodist'')] [Text ''Methodist''])
   \<and> getFileName ''dist/methodist/history/index.html'' ''dist'' = Inr (Some ''history'')
   \<and> getFileName ''https://localhost/methodist'' ''dist'' = Inr (Some ''methodist'')
   \<and> pageDirectory ''dist'' ''dist/methodist/history/index.html'' = [''methodist'', ''history'']
   \<and> pagePathParts ''dist'' ''dist/methodist/history/index.html'' = []
   \<and> annotate platform0 activeConfig0 ''dist'' ''dist/baptist/history/index.html''
      (Element 7 ''a'' [(''href'', ''/baptist'')] [Text ''Baptist''])
    = Inr (Element 7 ''a'' [(''href'', ''/baptist''), (''class'', ''active-parent'')] [Text ''Baptist''])"
  by code_simp

text \<open>
  On a page whose path holds \<open>distPath/\<close> at its start and nowhere else, a link is marked
  as the claim says: active when its name is the name of the page; active-parent when the
  names differ and the name of the link is a segment of the directory path of the page
  that is not the last one; and it is returned as it was otherwise.
\<close>

lemma annotate_regular:
  assumes page: "pagePath = distPath @ ''/'' @ rel"
    and once: "\<not> includesStr (distPath @ ''/'') rel"
    and cur: "getFileName pagePath distPath = Inr currPath"
    and lnk: "getFileName (urlProperty pf link ''href'') distPath = Inr linkPath"
  shows "annotate pf cfg distPath pagePath link =
     (if linkPath = currPath then markLink cfg Active link
      else if (\<exists>l. linkPath = Some l \<and> l \<in> set (pageDirectory distPath pagePath)
                    \<and> l \<noteq> last (pageDirectory distPath pagePath))
      then markLink cfg ActiveParent link
      else Inr link)"
proof -
  define P where "P \<longleftrightarrow> (\<exists>l. linkPath = Some l \<and> l \<in> set (pageDirectory distPath pagePath)
                    \<and> l \<noteq> last (pageDirectory distPath pagePath))"
  from page have page': "pagePath = (distPath @ ''/'') @ rel" by simp
  have d: "pagePathParts distPath pagePath = pageDirectory distPath pagePath"
    unfolding page' by (rule pagePathParts_directory [OF once])
  have par: "linkIsParent distPath pagePath linkPath \<longleftrightarrow> P"
    unfolding P_def d [symmetric] by (rule linkIsParent_parts)
  have "annotate pf cfg distPath pagePath link =
     (if linkPath = currPath then markLink cfg Active link
      else if P then markLink cfg ActiveParent link
      else Inr link)"
    by (simp add: annotate_def setActive_def cur lnk par markLink_inactive Let_def)
  then show ?thesis unfolding P_def .
qed

text \<open>
  The marks: the attribute \<open>data-<state>\<close> with the empty value, or the state among the
  tokens of the \<open>class\<close> attribute.
\<close>

lemma markLink_attribute:
  assumes "isAttribute cfg" and "isElement link"
  shows "\<exists>link'. markLink cfg Active link = Inr link'
           \<and> getAttribute link' (''data-'' @ attrActive cfg) = Some []"
    and "\<exists>link'. markLink cfg ActiveParent link = Inr link'
           \<and> getAttribute link' (''data-'' @ attrActiveParent cfg) = Some []"
  using assms by (cases link; simp add: markLink_def getAttribute_def map_of_setAttr)+

lemma classListAdd_token:
  assumes "token \<noteq> []" and "\<not> list_ex isWhitespace token" and "isElement link"
  shows "\<exists>link' ts. classListAdd token link = Inr link'
           \<and> getAttribute link' ''class'' = Some (joinWith '' '' ts) \<and> token \<in> set ts"
proof -
  let ?tokens = "tokenSet [] (case getAttribute link ''class'' of None \<Rightarrow> [] | Some v \<Rightarrow> tokensFrom [] v)"
  let ?ts = "if token \<in> set ?tokens then ?tokens else ?tokens @ [token]"
  have "classListAdd token link = Inr (setAttribute ''class'' (joinWith '' '' ?ts) link)"
    using assms by (simp add: classListAdd_def Let_def)
  moreover have "getAttribute (setAttribute ''class'' (joinWith '' '' ?ts) link) ''class''
      = Some (joinWith '' '' ?ts)"
    using assms(3) by (cases link) (simp_all add: getAttribute_def map_of_setAttr)
  moreover have "token \<in> set ?ts" by simp
  ultimately show ?thesis by blast
qed

text \<open>
  The example of the specification, on the page \<open>dist/docs/guide/install/index.html\<close>
  that is served as \<open>/docs/guide/install\<close>.
\<close>

lemma annotate_examples:
  "annotate platform0 activeConfig0 ''dist'' ''dist/docs/guide/install/index.html''
      (Element 7 ''a'' [(''href'', ''/docs/guide'')] [])
    = Inr (Element 7 ''a'' [(''href'', ''/docs/guide''), (''class'', ''active-parent'')] [])
  \<and> annotate platform0 activeConfig0 ''dist'' ''dist/docs/guide/install/index.html''
      (Element 7 ''a'' [(''href'', ''/docs/guide/install''), (''class'', ''nav'')] [])
    = Inr (Element 7 ''a'' [(''href'', ''/docs/guide/install''), (''class'', ''nav active'')] [])
  \<and> annotate platform0 activeConfig0 ''dist'' ''dist/docs/guide/install/index.html''
      (Element 7 ''a'' [(''href'', ''/docs/other'')] [])
    = Inr (Element 7 ''a'' [(''href'', ''/docs/other'')] [])"
  by code_simp

section \<open>Properties of the document model\<close>

lemma find_in_set: "find P xs = Some x \<Longrightarrow> x \<in> set xs \<and> P x"
  by (induction xs) (auto split: if_splits)

lemma length_concat_member:
  "x \<in> set xs \<Longrightarrow> length (f x) \<le> length (concat (map f xs))"
  by (induction xs) auto

lemma length_concat_two:
  "x \<in> set xs \<Longrightarrow> y \<in> set xs \<Longrightarrow> x \<noteq> y
   \<Longrightarrow> length (f x) + length (f y) \<le> length (concat (map f xs))"
proof (induction xs)
  case Nil
  then show ?case by simp
next
  case (Cons a xs)
  show ?case
  proof (cases "a = x")
    case True
    with Cons.prems have "y \<in> set xs" by auto
    from length_concat_member [OF this, of f] True show ?thesis by simp
  next
    case False
    note ax = this
    show ?thesis
    proof (cases "a = y")
      case True
      with Cons.prems have "x \<in> set xs" by auto
      from length_concat_member [OF this, of f] True show ?thesis by simp
    next
      case False
      with ax Cons.prems have "x \<in> set xs" "y \<in> set xs" by auto
      from Cons.IH [OF this Cons.prems(3)] show ?thesis by simp
    qed
  qed
qed

lemma innerHTML_shorter:
  assumes "isElement n" "localName n \<notin> set voidElements" "localName n \<notin> set rawTextElements"
  shows "length (innerHTML n) < length (serializeNode False n)"
  using assms by (cases n) (simp_all add: innerHTML_def)

lemma fragment_shorter:
  assumes dt: "doctype d = None" and h: "head d = Some h" and b: "body d = Some b"
  shows "length (innerHTML h @ innerHTML b) < length (serialize d)"
proof -
  from h obtain r where r: "documentElement d = Some r" and rn: "localName r = ''html''"
    and hf: "find (\<lambda>n. isElement n \<and> localName n = ''head'') (children r) = Some h"
    by (auto simp: head_def split: option.splits if_splits)
  from b r rn have bf: "find (\<lambda>n. isElement n \<and> (localName n = ''body'' \<or> localName n = ''frameset''))
      (children r) = Some b"
    by (auto simp: body_def split: option.splits if_splits)
  from find_in_set [OF hf] have h1: "h \<in> set (children r)" "isElement h" "localName h = ''head''"
    by auto
  from find_in_set [OF bf] have b1: "b \<in> set (children r)" "isElement b"
    "localName b = ''body'' \<or> localName b = ''frameset''" by auto
  from h1 b1 have ne: "h \<noteq> b" by auto
  have lh: "length (innerHTML h) < length (serializeNode False h)"
    using h1 by (intro innerHTML_shorter) (simp_all add: voidElements_def rawTextElements_def)
  have lb: "length (innerHTML b) < length (serializeNode False b)"
    using b1 by (intro innerHTML_shorter) (auto simp: voidElements_def rawTextElements_def)
  from r have "find isElement (childNodes d) = Some r" by (simp add: documentElement_def)
  from find_in_set [OF this] have re: "r \<in> set (childNodes d)" "isElement r" by auto
  have "length (serializeNode False h) + length (serializeNode False b)
      \<le> length (concat (map (serializeNode False) (children r)))"
    by (rule length_concat_two [OF h1(1) b1(1) ne])
  also have "\<dots> \<le> length (serializeNode False r)"
    using re(2) rn by (cases r) (simp_all add: voidElements_def rawTextElements_def)
  also have "\<dots> \<le> length (concat (map (serializeNode False) (childNodes d)))"
    by (rule length_concat_member [OF re(1)])
  finally show ?thesis using lh lb dt by (simp add: serialize_def)
qed

lemma fragment_differs:
  assumes "doctype d = None" "head d = Some h" "body d = Some b"
  shows "innerHTML h @ innerHTML b \<noteq> serialize d"
proof
  assume "innerHTML h @ innerHTML b = serialize d"
  then have "length (innerHTML h @ innerHTML b) = length (serialize d)" by (rule arg_cong)
  with fragment_shorter [OF assms] show False by simp
qed

text \<open>
  Claim C9. For a parsed document with a doctype, \<open>setSrc\<close> returns the full document:
  the doctype and the serialization of every node. For one without a doctype it returns
  the content of the head followed by the content of the body and nothing else, which is
  never the full serialization with its \<open>html\<close> wrapper. So the full document is returned
  exactly when there is a doctype.
\<close>

theorem setSrc_serialization_policy:
  "(doctype d = Some n \<longrightarrow>
      setSrc pf (Window d)
        = Inr (''<!DOCTYPE '' @ n @ ''>'' @ concat (map (serializeNode False) (childNodes d))))
   \<and> (doctype d = None \<and> head d = Some h \<and> body d = Some b \<longrightarrow>
      setSrc pf (Window d)
        = Inr (concat (map (serializeNode False) (children h))
               @ concat (map (serializeNode False) (children b)))
      \<and> setSrc pf (Window d) \<noteq> Inr (serialize d))
   \<and> (head d = Some h \<and> body d = Some b \<longrightarrow>
      (setSrc pf (Window d) = Inr (serialize d) \<longleftrightarrow> doctype d \<noteq> None))"
proof (intro conjI impI)
  assume "doctype d = Some n"
  then show "setSrc pf (Window d)
        = Inr (''<!DOCTYPE '' @ n @ ''>'' @ concat (map (serializeNode False) (childNodes d)))"
    by (simp add: setSrc_def serialize_def)
next
  assume a: "doctype d = None \<and> head d = Some h \<and> body d = Some b"
  then have hb: "isElement h" "localName h = ''head''" "isElement b"
    "localName b = ''body'' \<or> localName b = ''frameset''"
    using find_in_set
    by (auto simp: head_def body_def split: option.splits if_splits dest!: find_in_set)
  from a have s: "setSrc pf (Window d) = Inr (innerHTML h @ innerHTML b)"
    by (simp add: setSrc_def)
  from hb show "setSrc pf (Window d)
        = Inr (concat (map (serializeNode False) (children h))
               @ concat (map (serializeNode False) (children b)))"
    unfolding s by (auto simp: innerHTML_def rawTextElements_def)
  from a fragment_differs [of d h b] show "setSrc pf (Window d) \<noteq> Inr (serialize d)"
    unfolding s by simp
next
  assume a: "head d = Some h \<and> body d = Some b"
  show "setSrc pf (Window d) = Inr (serialize d) \<longleftrightarrow> doctype d \<noteq> None"
  proof (cases "doctype d")
    case None
    with a fragment_differs [of d h b] show ?thesis by (simp add: setSrc_def)
  next
    case (Some n)
    then show ?thesis by (simp add: setSrc_def)
  qed
qed


theorem setSrc_serialization_policy_witness:
  "setSrc platform0 (Window \<lparr>doctype = Some ''html'', childNodes =
       [Element 0 ''html'' [(''lang'', ''en'')]
          [Element 1 ''head'' [] [], Element 2 ''body'' [] [Element 3 ''p'' [] [Text ''Hi'']]]]\<rparr>)
     = Inr (''<!DOCTYPE html><html lang='' @ [CHR 0x22] @ ''en'' @ [CHR 0x22]
            @ ''><head></head><body><p>Hi</p></body></html>'')
   \<and> setSrc platform0 (Window \<lparr>doctype = None, childNodes =
       [Element 0 ''html'' []
          [Element 1 ''head'' [] [], Element 2 ''body'' [] [Element 3 ''p'' [] [Text ''Hi'']]]]\<rparr>)
     = Inr ''<p>Hi</p>''"
  using setSrc_serialization_policy [of
      "\<lparr>doctype = Some ''html'', childNodes =
       [Element 0 ''html'' [(''lang'', ''en'')]
          [Element 1 ''head'' [] [], Element 2 ''body'' [] [Element 3 ''p'' [] [Text ''Hi'']]]]\<rparr>"
      "''html''" platform0]
    setSrc_serialization_policy [of
      "\<lparr>doctype = None, childNodes =
       [Element 0 ''html'' []
          [Element 1 ''head'' [] [], Element 2 ''body'' [] [Element 3 ''p'' [] [Text ''Hi'']]]]\<rparr>"
      _ platform0 "Element 1 ''head'' [] []" "Element 2 ''body'' [] [Element 3 ''p'' [] [Text ''Hi'']]"]
  by (simp add: head_def body_def documentElement_def serializeAttrs_def voidElements_def
      rawTextElements_def)


section \<open>Properties of the Bundle Engine\<close>

lemma distinctPaths_upd:
  "distinctPaths bt \<Longrightarrow> distinct (map path es) \<Longrightarrow> distinctPaths (bt(k \<mapsto> es))"
  by (simp add: distinctPaths_def)

lemma groupStep_inv:
  assumes inv: "distinctPaths bt" and st: "groupStep pf ty t (bt, cn, d) = Inr (bt', cn', d', t')"
  shows "distinctPaths bt'"
proof -
  from st obtain raw formatted where g: "getGroup t = Inr (raw, formatted)"
    by (cases "getGroup t") (auto simp: groupStep_def Let_def)
  define bundleGroup where "bundleGroup = (case bt formatted of None \<Rightarrow> [] | Some g \<Rightarrow> g)"
  define p where "p = urlProperty pf t (pathAttr ty)"
  define m where "m = (\<not> hasAttribute t ''no-minify'' \<and> \<not> hasAttribute t ''data-no-minify'')"
  define bundleGroup' where "bundleGroup' =
    (if p \<notin> set (map path bundleGroup) then bundleGroup @ [\<lparr>path = p, minify = m\<rparr>] else bundleGroup)"
  from st g have bt': "bt' = bt(formatted \<mapsto> bundleGroup')"
    by (simp add: groupStep_def Let_def bundleGroup_def p_def m_def bundleGroup'_def
        split: if_splits)
  have "distinct (map path bundleGroup)"
    using inv by (auto simp: bundleGroup_def distinctPaths_def split: option.splits)
  then have "distinct (map path bundleGroup')" by (simp add: bundleGroup'_def)
  with inv show ?thesis unfolding bt' by (rule distinctPaths_upd)
qed

lemma groupLoop_inv:
  "distinctPaths bt \<Longrightarrow> groupLoop pf ty ts (bt, cn, d) acc = (r, bt', d', acc')
   \<Longrightarrow> distinctPaths bt'"
proof (induction ts arbitrary: bt cn d acc)
  case Nil
  then show ?case by simp
next
  case (Cons t ts)
  show ?case
  proof (cases "groupStep pf ty t (bt, cn, d)")
    case (Inl e)
    with Cons.prems show ?thesis by simp
  next
    case (Inr x)
    obtain bt1 cn1 d1 t1 where x: "x = (bt1, cn1, d1, t1)" by (cases x)
    from groupStep_inv [OF Cons.prems(1)] Inr x have "distinctPaths bt1" by simp
    from Cons.IH [OF this] Cons.prems(2) Inr x show ?thesis by simp
  qed
qed

lemma groupSrcAndInsertBundle_inv:
  assumes "distinctPaths bt"
  shows "distinctPaths (fst (snd (groupSrcAndInsertBundle pf b ty ts (bt, d))))"
proof -
  obtain r bt' d' acc' where g: "groupLoop pf ty ts (bt, Map.empty, d) [] = (r, bt', d', acc')"
    by (cases "groupLoop pf ty ts (bt, Map.empty, d) []") auto
  from groupLoop_inv [OF assms g] have "distinctPaths bt'" .
  with g show ?thesis
    by (cases r) (auto simp: groupSrcAndInsertBundle_def split: prod.splits)
qed

lemma add_inv:
  assumes "storeInv st"
  shows "storeInv (fst (snd (add pf cfg a da (f, st))))"
proof -
  have css: "distinctPaths (bundleCss st)" and js: "distinctPaths (bundleJs st)"
    using assms by (simp_all add: storeInv_def)
  let ?dom = "parseDocument pf (fSrc f)"
  let ?links = "querySelectorAll (selectorMatches ''link'' [''data-bundle'', ''bundle'']) ?dom"
  let ?scripts = "querySelectorAll (selectorMatches ''script'' [''data-bundle'', ''bundle'']) ?dom"
  obtain e1 c1 d1 where r1:
    "groupSrcAndInsertBundle pf (bundleDir cfg) CSS ?links (bundleCss st, ?dom) = (e1, c1, d1)"
    by (cases "groupSrcAndInsertBundle pf (bundleDir cfg) CSS ?links (bundleCss st, ?dom)") auto
  obtain e2 c2 d2 where r2:
    "groupSrcAndInsertBundle pf (bundleDir cfg) JS ?scripts (bundleJs st, d1) = (e2, c2, d2)"
    by (cases "groupSrcAndInsertBundle pf (bundleDir cfg) JS ?scripts (bundleJs st, d1)") auto
  from groupSrcAndInsertBundle_inv [OF css, of pf "bundleDir cfg" CSS ?links ?dom] r1
  have i1: "distinctPaths c1" by simp
  from groupSrcAndInsertBundle_inv [OF js, of pf "bundleDir cfg" JS ?scripts d1] r2
  have i2: "distinctPaths c2" by simp
  show ?thesis
    using assms i1 i2 r1 r2
    by (simp add: add_def storeInv_def Let_def split: sum.splits)
qed

lemma addAll_inv: "storeInv st \<Longrightarrow> storeInv (addAll pf cfg a da fs st)"
proof (induction fs arbitrary: st)
  case Nil
  then show ?case by simp
next
  case (Cons f fs)
  from Cons.IH [OF add_inv [OF Cons.prems]] show ?case by simp
qed

lemma distinct_filter_one:
  "distinct (map f xs) \<Longrightarrow> x \<in> set xs \<Longrightarrow> length (filter (\<lambda>e. f e = f x) xs) = 1"
proof (induction xs)
  case Nil
  then show ?case by simp
next
  case (Cons a xs)
  show ?case
  proof (cases "a = x")
    case True
    with Cons.prems have "f x \<notin> f ` set xs" by simp
    then have "\<forall>e \<in> set xs. f e \<noteq> f x" by (auto simp: image_iff)
    then have "filter (\<lambda>e. f e = f x) xs = []" by (simp add: filter_empty_conv)
    with True show ?thesis by simp
  next
    case False
    with Cons.prems have "x \<in> set xs" "f a \<noteq> f x" by auto
    with Cons show ?thesis by simp
  qed
qed

lemma bundledSrc_text:
  "bundledSrc pf srcPath ty es w = Inr (out, w')
   \<Longrightarrow> out = concat (map (sourceOf pf srcPath ty w) es) \<and> disk w' = disk w"
proof (induction es arbitrary: w out)
  case Nil
  then show ?case by simp
next
  case (Cons e es)
  from Cons.prems obtain t1 w1 t2 where
    g: "getSrc pf srcPath ty e w = Inr (t1, w1)"
    and r: "bundledSrc pf srcPath ty es w1 = Inr (t2, w')" and t: "out = t1 @ t2"
    by (auto split: sum.splits)
  from g have g1: "t1 = sourceOf pf srcPath ty w e" and g2: "disk w1 = disk w"
    by (auto simp: getSrc_def sourceOf_def Let_def split: if_splits option.splits)
  from Cons.IH [OF r] have "t2 = concat (map (sourceOf pf srcPath ty w1) es)" "disk w' = disk w1"
    by auto
  moreover have "sourceOf pf srcPath ty w1 = sourceOf pf srcPath ty w"
    by (rule ext) (simp add: sourceOf_def g2)
  ultimately show ?case using t g1 g2 by simp
qed

text \<open>
  Claim C4. From a store whose groups hold no path twice (the empty store of a new run),
  after the add phase over any sequence of files every group of either kind holds each
  path at most once: every entry is the only one with its path, so the bundle that the
  build phase concatenates from the group's entries, in their order, has that source
  exactly once.
\<close>

theorem bundle_paths_unique:
  assumes inv: "storeInv st"
    and grp: "bundleOf ty (addAll pf cfg a da fs st) g = Some es"
  shows "distinct (map path es)
    \<and> (\<forall>e \<in> set es. length (filter (\<lambda>x. path x = path e) es) = 1)
    \<and> (\<forall>text w w'. bundledSrc pf srcPath ty es w = Inr (text, w')
          \<longrightarrow> text = concat (map (sourceOf pf srcPath ty w) es))"
proof -
  from addAll_inv [OF inv] have "storeInv (addAll pf cfg a da fs st)" .
  with grp have d: "distinct (map path es)"
    by (cases ty) (auto simp: storeInv_def distinctPaths_def)
  show ?thesis using d distinct_filter_one [OF d] bundledSrc_text by blast
qed

lemma two_pages:
  "bundleOf JS (addAll (platform0\<lparr>parseDocument := (\<lambda>s. vendorPage)\<rparr>) bundling None None
       [htmlFile ''dist/a.html'' [], htmlFile ''dist/b.html'' []] store0) ''vendor''
   = Some [\<lparr>path = ''https://localhost/assets/vendor.js'', minify = True\<rparr>]"
  by code_simp

theorem bundle_paths_unique_witness:
  "bundleOf JS (addAll (platform0\<lparr>parseDocument := (\<lambda>s. vendorPage)\<rparr>) bundling None None
       [htmlFile ''dist/a.html'' [], htmlFile ''dist/b.html'' []] store0) ''vendor''
   = Some [\<lparr>path = ''https://localhost/assets/vendor.js'', minify = True\<rparr>]
   \<and> length (filter (\<lambda>x. path x = ''https://localhost/assets/vendor.js'')
        [\<lparr>path = ''https://localhost/assets/vendor.js'', minify = True\<rparr>]) = 1"
proof -
  have inv: "storeInv store0"
    by (simp add: storeInv_def distinctPaths_def store0_def)
  from bundle_paths_unique [OF inv two_pages] two_pages show ?thesis by simp
qed

text \<open>
  Three markers of one group, all spelled alike: the reference stands where the last
  marker was, every marker is gone, and the group holds the three paths in document order,
  the last one not to be minified.
\<close>

lemma bundle_reference_at_last_marker:
  "groupSrcAndInsertBundle platform0 ''assets/bundle'' JS
        (querySelectorAll (selectorMatches ''script'' [''data-bundle'', ''bundle'']) orderedPage)
        (Map.empty, orderedPage)
     = (None,
        [''vendor'' \<mapsto> [\<lparr>path = ''https://localhost/assets/a.js'', minify = True\<rparr>,
                          \<lparr>path = ''https://localhost/assets/b.js'', minify = True\<rparr>,
                          \<lparr>path = ''https://localhost/assets/c.js'', minify = False\<rparr>]],
        \<lparr>doctype = Some ''html'', childNodes =
         [Element 0 ''html'' []
            [Element 1 ''head'' [] [],
             Element 2 ''body'' []
               [Element 4 ''script'' [(''src'', ''/assets/config.js'')] [],
                Element 8 ''script'' [(''src'', ''/assets/bundle/bundle-vendor.js'')] [],
                Element 7 ''script'' [(''src'', ''/assets/app.js'')] []]]]\<rparr>)"
  by (simp add: orderedPage_def platform0_def querySelectorAll_def elementsIn_def
      selectorMatches_def hasAttribute_def groupSrcAndInsertBundle_def groupStep_def
      getGroup_def rawGroup_def getAttribute_def formatGroup_def toLowerCase_def toLowerChar_def
      inheritedKeys_def urlProperty_def insertStep_def parseInt_def isDigit_def digitValue_def
      insertBefore_def hasParentElement_def ids_def removeEl_def freshId_def
      referenceElement_def showNat.simps Let_def)

text \<open>
  Claim C1 fails on the code. The page holds two markers of the group \<open>vendor\<close>, spelled
  \<open>Vendor\<close> and \<open>vendor\<close>, with a script that is not bundled between them. The index of a
  marker counts the markers of the formatted name, the length of its group counts the
  markers of the raw name: the reference is inserted where the first marker was, before
  the script in between, and not where the last marker was.
\<close>

theorem bundle_reference_at_first_spelling:
  "map formatGroup [''Vendor'', ''vendor''] = [''vendor'', ''vendor'']
   \<and> querySelectorAll (selectorMatches ''script'' [''data-bundle'', ''bundle'']) mixedPage
     = [Element 3 ''script'' [(''bundle'', ''Vendor''), (''src'', ''/assets/a.js'')] [],
        Element 5 ''script'' [(''bundle'', ''vendor''), (''src'', ''/assets/b.js'')] []]
   \<and> snd (snd (groupSrcAndInsertBundle platform0 ''assets/bundle'' JS
        (querySelectorAll (selectorMatches ''script'' [''data-bundle'', ''bundle'']) mixedPage)
        (Map.empty, mixedPage)))
     = \<lparr>doctype = Some ''html'', childNodes =
         [Element 0 ''html'' []
            [Element 1 ''head'' [] [],
             Element 2 ''body'' []
               [Element 7 ''script'' [(''src'', ''/assets/bundle/bundle-vendor.js'')] [],
                Element 4 ''script'' [(''src'', ''/assets/config.js'')] [],
                Element 6 ''script'' [(''src'', ''/assets/app.js'')] []]]]\<rparr>"
  by code_simp

text \<open>With the spellings \<open>Vendor\<close>, \<open>vendor\<close>, \<open>vendor\<close> the same bundle is referenced twice, and
  not where the last marker was.\<close>

lemma bundle_reference_twice:
  "snd (snd (groupSrcAndInsertBundle platform0 ''assets/bundle'' JS
        (querySelectorAll (selectorMatches ''script'' [''data-bundle'', ''bundle'']) mixedPage3)
        (Map.empty, mixedPage3)))
     = \<lparr>doctype = Some ''html'', childNodes =
         [Element 0 ''html'' []
            [Element 1 ''head'' [] [],
             Element 2 ''body'' []
               [Element 7 ''script'' [(''src'', ''/assets/bundle/bundle-vendor.js'')] [],
                Element 8 ''script'' [(''src'', ''/assets/bundle/bundle-vendor.js'')] [],
                Element 5 ''script'' [(''src'', ''/assets/config.js'')] []]]]\<rparr>"
  by code_simp

subsection \<open>Markers spelled consistently\<close>

text \<open>
  \<open>parseInt\<close> reads back the decimal numeral that the first loop wrote.
\<close>

lemma digit_nth: "k < 10 \<Longrightarrow> isDigit (''0123456789'' ! k) \<and> digitValue (''0123456789'' ! k) = k"
proof -
  assume "k < 10"
  then have "k \<in> {0, 1, 2, 3, 4, 5, 6, 7, 8, 9}" by auto
  then show ?thesis by (auto simp: isDigit_def digitValue_def)
qed

lemma showNat_digits: "list_all isDigit (showNat n) \<and> showNat n \<noteq> []"
proof (induction n rule: showNat.induct)
  case (1 n)
  show ?case
  proof (cases "n < 10")
    case True
    then show ?thesis using digit_nth [of n] by (subst (1 2) showNat.simps) simp
  next
    case False
    then have "n mod 10 < 10" by simp
    from digit_nth [OF this] "1.IH" False show ?thesis
      by (subst (1 2) showNat.simps) simp
  qed
qed

lemma showNat_value: "fold (\<lambda>c a. 10 * a + digitValue c) (showNat n) 0 = n"
proof (induction n rule: showNat.induct)
  case (1 n)
  show ?case
  proof (cases "n < 10")
    case True
    then show ?thesis using digit_nth [of n] by (subst showNat.simps) simp
  next
    case False
    then have "n mod 10 < 10" by simp
    from digit_nth [OF this] "1.IH" False show ?thesis
      by (subst showNat.simps) simp
  qed
qed

lemma parseInt_digits:
  assumes ne: "s \<noteq> []" and all: "list_all isDigit s"
  shows "parseInt (Some s) = Some (int (fold (\<lambda>c a. 10 * a + digitValue c) s 0))"
proof -
  obtain c cs where s: "s = c # cs" using ne by (cases s) auto
  with all have c: "isDigit c" by simp
  have dw: "dropWhile (\<lambda>c. c \<in> set [CHR '' '', CHR 0x09, CHR 0x0A, CHR 0x0D]) s = s"
    using c s by (auto simp: isDigit_def)
  have sw: "startsWith ''-'' s = False" "startsWith ''+'' s = False"
    using c s by (auto simp: isDigit_def)
  have tw: "takeWhile isDigit s = s"
    using all by (simp add: takeWhile_eq_all_conv list_all_iff)
  show ?thesis
    unfolding parseInt_def
    by (simp only: option.case Let_def dw sw tw ne if_False simp_thms)
qed

lemma parseInt_showNat: "parseInt (Some (showNat n)) = Some (int n)"
  using parseInt_digits [of "showNat n"] showNat_digits [of n] showNat_value [of n] by simp

text \<open>
  The first loop on well formed markers never throws and leaves each marker with the number
  of earlier markers of its formatted name.
\<close>

lemma getAttribute_setAttribute:
  "isElement t \<Longrightarrow> getAttribute (setAttribute n v t) m = (if m = n then Some v else getAttribute t m)"
  by (cases t) (simp_all add: getAttribute_def map_of_setAttr)

lemma getAttribute_setAttribute_other:
  "m \<noteq> n \<Longrightarrow> getAttribute (setAttribute n v t) m = getAttribute t m"
  by (cases t) (simp_all add: getAttribute_def map_of_setAttr)

lemma hasAttribute_setAttribute_other:
  "m \<noteq> n \<Longrightarrow> hasAttribute (setAttribute n v t) m = hasAttribute t m"
  by (cases t) (simp_all add: hasAttribute_def map_of_setAttr)

lemma rawGroup_setAttribute [simp]:
  "rawGroup (setAttribute ''group-index'' v t) = rawGroup t"
  by (simp add: rawGroup_def getAttribute_setAttribute_other split: option.splits)

lemma nodeId_setAttribute [simp]: "nodeId (setAttribute n v t) = nodeId t"
  by (cases t) simp_all

lemma groupStep_ok:
  assumes "wellFormedMarker t"
  shows "\<exists>bt' d'. groupStep pf ty t (bt, cn, d)
     = Inr (bt', cn(groupKey t \<mapsto> Suc (counterOf cn (groupKey t))), d',
            setAttribute ''group-index'' (showNat (counterOf cn (groupKey t))) t)"
proof -
  from assms obtain r where r: "rawGroup t = Some r" "formatGroup r \<notin> set inheritedKeys"
    by (auto simp: wellFormedMarker_def split: option.splits)
  then show ?thesis
    by (simp add: groupStep_def getGroup_def groupKey_def counterOf_def Let_def)
qed

lemma groupLoop_withIndex:
  "list_all wellFormedMarker ts
   \<Longrightarrow> (case groupLoop pf ty ts (bt, cn, d) acc of
          (r, bt', d', out) \<Rightarrow> r = None \<and> out = acc @ withIndex cn ts)"
proof (induction ts arbitrary: bt cn d acc)
  case Nil
  then show ?case by simp
next
  case (Cons t ts)
  then have t: "wellFormedMarker t" and ts: "list_all wellFormedMarker ts" by simp_all
  define cn' where "cn' = cn(groupKey t \<mapsto> Suc (counterOf cn (groupKey t)))"
  define t' where "t' = setAttribute ''group-index'' (showNat (counterOf cn (groupKey t))) t"
  have "\<exists>bt1 d1. groupStep pf ty t (bt, cn, d) = Inr (bt1, cn', d1, t')"
    unfolding cn'_def t'_def by (rule groupStep_ok [OF t])
  then obtain bt1 d1 where
    s: "groupStep pf ty t (bt, cn, d) = Inr (bt1, cn', d1, t')" by blast
  have step: "groupLoop pf ty (t # ts) (bt, cn, d) acc = groupLoop pf ty ts (bt1, cn', d1) (acc @ [t'])"
    by (simp add: s)
  have out: "(acc @ [t']) @ withIndex cn' ts = acc @ withIndex cn (t # ts)"
    by (simp add: cn'_def t'_def)
  have "case groupLoop pf ty ts (bt1, cn', d1) (acc @ [t']) of
          (r, bt', d', out) \<Rightarrow> r = None \<and> out = (acc @ [t']) @ withIndex cn' ts"
    by (rule Cons.IH [OF ts])
  then show ?case unfolding step out .
qed

lemma length_withIndex [simp]: "length (withIndex cn ts) = length ts"
  by (induction ts arbitrary: cn) simp_all

lemma withIndex_nth:
  "i < length ts \<Longrightarrow> withIndex cn ts ! i
     = setAttribute ''group-index''
         (showNat (counterOf cn (groupKey (ts ! i)) + length (filter (\<lambda>u. groupKey u = groupKey (ts ! i)) (take i ts))))
         (ts ! i)"
proof (induction ts arbitrary: cn i)
  case Nil
  then show ?case by simp
next
  case (Cons t ts)
  show ?case
  proof (cases i)
    case 0
    then show ?thesis by simp
  next
    case (Suc j)
    with Cons.prems have j: "j < length ts" by simp
    define cn' where "cn' = cn(groupKey t \<mapsto> Suc (counterOf cn (groupKey t)))"
    let ?x = "ts ! j"
    have c: "counterOf cn' (groupKey ?x) = (if groupKey t = groupKey ?x then Suc (counterOf cn (groupKey ?x)) else counterOf cn (groupKey ?x))"
      by (auto simp: cn'_def counterOf_def)
    have n: "counterOf cn' (groupKey ?x) + length (filter (\<lambda>u. groupKey u = groupKey ?x) (take j ts))
        = counterOf cn (groupKey ?x) + length (filter (\<lambda>u. groupKey u = groupKey ?x) (take (Suc j) (t # ts)))"
      unfolding c by simp
    have "withIndex cn (t # ts) ! i = withIndex cn' ts ! j"
      using Suc by (simp add: cn'_def)
    also have "\<dots> = setAttribute ''group-index''
        (showNat (counterOf cn' (groupKey ?x) + length (filter (\<lambda>u. groupKey u = groupKey ?x) (take j ts)))) ?x"
      by (rule Cons.IH [OF j])
    finally show ?thesis unfolding n using Suc by simp
  qed
qed

lemma filter_withIndex:
  assumes "\<And>v t. P (setAttribute ''group-index'' v t) = P t"
  shows "length (filter P (withIndex cn ts)) = length (filter P ts)"
  by (induction ts arbitrary: cn) (simp_all add: assms)

lemma rawGroup_isElement: "rawGroup t = Some r \<Longrightarrow> isElement t"
  by (cases t) (auto simp: rawGroup_def getAttribute_def)

lemma rawGroup_attr:
  "rawGroup u = Some r
   \<Longrightarrow> getAttribute u ''data-bundle'' = Some r \<or> getAttribute u ''bundle'' = Some r"
  by (auto simp: rawGroup_def split: option.splits if_splits)

text \<open>
  When the markers are spelled consistently, the second loop inserts the reference element
  before a marker exactly when it is the last of its group, and removes the marker in
  either case.
\<close>

lemma insertStep_consistent:
  assumes c: "consistentMarkers ts" and i: "i < length ts"
  shows "insertStep b ty (withIndex Map.empty ts) (withIndex Map.empty ts ! i) d =
     (if lastOfGroup ts i
      then (case insertBefore (nodeId (ts ! i))
                  [referenceElement (freshId d) ty
                     (''/'' @ b @ ''/bundle-'' @ groupKey (ts ! i) @ ''.'' @ typeName ty)] d of
              None \<Rightarrow> Inl DOMException
            | Some d' \<Rightarrow> Inr (removeEl (nodeId (ts ! i)) d'))
      else Inr (removeEl (nodeId (ts ! i)) d))"
proof -
  let ?t = "ts ! i"
  let ?idx = "length (filter (\<lambda>u. groupKey u = groupKey ?t) (take i ts))"
  let ?t' = "setAttribute ''group-index'' (showNat ?idx) ?t"
  have tin: "?t \<in> set ts" using i by simp
  from c tin have wf: "wellFormedMarker ?t"
    by (simp add: consistentMarkers_def list_all_iff)
  then obtain r where r: "rawGroup ?t = Some r"
    by (auto simp: wellFormedMarker_def split: option.splits)
  have el: "isElement ?t" using r by (rule rawGroup_isElement)
  have t': "withIndex Map.empty ts ! i = ?t'"
    using withIndex_nth [OF i, of Map.empty] by (simp add: counterOf_def)
  have f: "groupKey ?t = formatGroup r" using r by (simp add: groupKey_def)
  have g: "getGroup ?t' = Inr (r, formatGroup r)" using r by (simp add: getGroup_def)
  from c have "\<forall>t\<in>set ts. \<forall>u\<in>set ts.
      (groupKey u = groupKey t \<or> getAttribute u ''data-bundle'' = rawGroup t
        \<or> getAttribute u ''bundle'' = rawGroup t) = (rawGroup u = rawGroup t)"
    by (simp add: consistentMarkers_def list_all_iff)
  with tin have "\<forall>u\<in>set ts.
      (groupKey u = groupKey ?t \<or> getAttribute u ''data-bundle'' = rawGroup ?t
        \<or> getAttribute u ''bundle'' = rawGroup ?t) = (rawGroup u = rawGroup ?t)"
    by (rule bspec [rotated])
  then have cons: "\<And>u. u \<in> set ts \<Longrightarrow>
      (groupKey u = groupKey ?t \<or> getAttribute u ''data-bundle'' = Some r \<or> getAttribute u ''bundle'' = Some r)
      = (rawGroup u = Some r)"
    unfolding r by blast
  let ?Q = "\<lambda>u. getAttribute u ''data-bundle'' = Some r \<or> getAttribute u ''bundle'' = Some r"
  let ?R = "\<lambda>u. rawGroup u = Some r"
  have "length (filter ?Q (withIndex Map.empty ts)) = length (filter ?Q ts)"
    by (rule filter_withIndex) (simp add: getAttribute_setAttribute_other)
  moreover have "filter ?Q ts = filter ?R ts"
    by (rule filter_cong) (use cons rawGroup_attr in blast)+
  ultimately have len: "length (filter ?Q (withIndex Map.empty ts)) = length (filter ?R ts)"
    by simp
  have "filter (\<lambda>u. groupKey u = groupKey ?t) (take i ts) = filter ?R (take i ts)"
  proof (rule filter_cong)
    fix u assume "u \<in> set (take i ts)"
    then have "u \<in> set ts" by (rule in_set_takeD)
    from cons [OF this] show "(groupKey u = groupKey ?t) = (rawGroup u = Some r)"
      using r by (auto simp: groupKey_def)
  qed simp
  then have idx: "?idx = length (filter ?R (take i ts))" by simp
  have "ts = take i ts @ ?t # drop (Suc i) ts" using i by (rule id_take_nth_drop)
  then have "filter ?R ts = filter ?R (take i ts) @ filter ?R (?t # drop (Suc i) ts)"
    by (metis filter_append)
  then have total: "length (filter ?R ts) = ?idx + 1 + length (filter ?R (drop (Suc i) ts))"
    using r idx by simp
  have last: "lastOfGroup ts i \<longleftrightarrow> length (filter ?R (drop (Suc i) ts)) = 0"
    using r by (auto simp: lastOfGroup_def list_all_iff filter_empty_conv)
  have gi: "parseInt (getAttribute ?t' ''group-index'') = Some (int ?idx)"
    using el by (simp add: getAttribute_setAttribute parseInt_showNat)
  have isLast: "(parseInt (getAttribute ?t' ''group-index'')
        = Some (int (length (filter ?Q (withIndex Map.empty ts))) - 1)) \<longleftrightarrow> lastOfGroup ts i"
    unfolding gi len total last by auto
  have nid: "nodeId ?t' = nodeId ?t" by simp
  show ?thesis
    unfolding t' insertStep_def g Let_def nid using isLast f by simp
qed

section \<open>Properties of the Template Interpolator\<close>

text \<open>
  A match is \<open>${\<close>, a key whose first character is not an opening brace, and \<open>}\<close>; no match
  starts at \<open>${{\<close>. A match whose key has a truthy value is replaced by the value's
  string; a match whose key is neither in the data nor inherited is left as it is.
\<close>

lemma lazyToBrace_take:
  "lazyToBrace cs = Some g \<Longrightarrow> take (Suc (length g)) cs = g @ ''}''"
proof (induction cs arbitrary: g)
  case Nil
  then show ?case by simp
next
  case (Cons c cs)
  then show ?case by (auto split: if_splits option.splits)
qed

lemma templateKeyAt_take:
  assumes "templateKeyAt s = Some key"
  shows "take (length key + 3) s = ''${'' @ key @ ''}''"
proof -
  from assms obtain d b c cs where s: "s = d # b # c # cs"
    by (cases s rule: templateKeyAt.cases) auto
  with assms obtain g where g: "lazyToBrace cs = Some g" and k: "key = c # g"
    and db: "d = CHR ''$''" "b = CHR ''{''"
    by (auto split: if_splits option.splits)
  from lazyToBrace_take [OF g] s k db show ?thesis by (simp add: eval_nat_numeral)
qed

lemma templateKeyAt_double_curly: "templateKeyAt (''${{'' @ s) = None"
  by simp

lemma template_step:
  assumes k: "templateKeyAt s = Some key"
  shows "replaceTemplateVars s obj =
     (if truthy (propGet obj key) then toStr (propGet obj key) else take (length key + 3) s)
     @ replaceTemplateVars (drop (length key + 3) s) obj"
proof -
  from k obtain x xs where s: "s = x # xs" by (cases s) auto
  from templateKeyAt_take [OF k] have t: "take (length key + 3) s = ''${'' @ key @ ''}''" .
  have d: "drop (length key + 3) s = drop (length key + 2) xs"
    using s by (simp add: eval_nat_numeral)
  show ?thesis unfolding t d using k s by (simp add: Let_def)
qed

lemma template_examples:
  "replaceTemplateVars ''Hello ${name}'' [''name'' \<mapsto> JStr ''Ada''] = ''Hello Ada''
   \<and> replaceTemplateVars ''${{count}}'' obj = ''${{count}}''"
  by (simp add: propGet_def isLineTerminator_def)

lemma template_absent_key:
  assumes "templateKeyAt s = Some key" "obj key = None" "key \<notin> set inheritedKeys"
  shows "replaceTemplateVars s obj
    = take (length key + 3) s @ replaceTemplateVars (drop (length key + 3) s) obj"
  using template_step [OF assms(1), of obj] assms(2,3) by (simp add: propGet_def)


text \<open>
  Claim C3 fails on the code. The replacement is \<open>obj[key] || match\<close>: a key whose value is
  falsy (the number \<open>0\<close>, the empty string) is in the data, and its placeholder is left in
  the text instead of being replaced by the value's string.
\<close>

theorem template_falsy_value_left:
  "replaceTemplateVars ''Total: ${count}'' [''count'' \<mapsto> JNum 0] = ''Total: ${count}''
   \<and> toStr (JNum 0) = ''0''
   \<and> replaceTemplateVars ''Hello ${name}!'' [''name'' \<mapsto> JStr []] = ''Hello ${name}!''"
  by code_simp

section \<open>Properties of the directory conversion\<close>

text \<open>The page \<open>dist/about.html\<close> is moved to \<open>dist/about/index.html\<close> and its entry is
  rewritten; an entry \<open>dist/index.html\<close> is left alone.\<close>

lemma directory_conversion_examples:
  "createDirectory False [] (Some [''.html'']) None [] ''dist/about.html''
     ([''dist/index.html'', ''dist/about.html''],
      \<lparr>disk = [''dist/about.html'' \<mapsto> ''<p>about</p>''], dirs = {}, reads = []\<rparr>)
   = Inr ([''dist/index.html'', ''dist/about/index.html''],
      \<lparr>disk = [''dist/about.html'' \<mapsto> ''<p>about</p>'']
                (''dist/about.html'' := None, ''dist/about/index.html'' \<mapsto> ''<p>about</p>''),
       dirs = {''dist/about''}, reads = []\<rparr>)
   \<and> createDirectory False [] (Some [''.html'']) None [] ''dist/index.html'' (files, w)
     = Inr (files, w)"
  by (simp add: createDirectory_def getSrcConfig_def isAllowedType_def splitStr_def at_def
      firstPiece_def Let_def)

text \<open>
  Claim C8 fails on the code. The page \<open>dist/blog-index.html\<close> is no index page and is
  moved to \<open>dist/blog-index/index.html\<close>, but the second replacement of the entry,
  \<open>index/index.html\<close> by \<open>index.html\<close>, turns the new path back into the old one: the
  pending files still name \<open>dist/blog-index.html\<close>, which is no longer on disk.
\<close>

theorem directory_entry_not_rewritten:
  "createDirectory False [] (Some [''.html'']) None [] ''dist/blog-index.html''
     ([''dist/blog-index.html''],
      \<lparr>disk = [''dist/blog-index.html'' \<mapsto> ''<p>posts</p>''], dirs = {}, reads = []\<rparr>)
   = Inr ([''dist/blog-index.html''],
      \<lparr>disk = [''dist/blog-index.html'' \<mapsto> ''<p>posts</p>'']
                (''dist/blog-index.html'' := None,
                 ''dist/blog-index/index.html'' \<mapsto> ''<p>posts</p>''),
       dirs = {''dist/blog-index''}, reads = []\<rparr>)"
  by (simp add: createDirectory_def getSrcConfig_def isAllowedType_def splitStr_def at_def
      firstPiece_def Let_def)

section \<open>Properties of the include pass\<close>

lemma init_without_markers:
  assumes "isAllowedType (Some f) allowType disallowType"
    and "querySelectorAll (selectorMatches [] attrInclude) (parseDocument pf (fSrc f)) = []"
  shows "init pf distPath disabled attrInclude allowType disallowType (f, st, w)
    = (case setSrc pf (Window (parseDocument pf (fSrc f))) of
         Inl e \<Rightarrow> Inl e
       | Inr out \<Rightarrow> Inr (f\<lparr>fSrc := out\<rparr>, st, w))"
  using assms by (simp add: init_def Let_def)

text \<open>
  A page with one marker: the include is read once and cached, its markup is inserted
  after the marker, the marker's \<open>class\<close> goes to the first element that is no style
  element, and the marker is removed.
\<close>

lemma include_pass_example:
  "init (platform0\<lparr>parseDocument := (\<lambda>s. includePage),
           pathResolve := (\<lambda>p. ''/site/'' @ replaceFirst ''//'' ''/'' p),
           parseMarkup := (\<lambda>k s. [Element k ''style'' [] [Text ''p > a {}''],
                                   Element (Suc k) ''footer'' [] [Text ''Bye'']])\<rparr>)
     ''dist'' False [''include'', ''data-include''] None None
     (htmlFile ''dist/index.html'' ''...'', store0,
      \<lparr>disk = [''/site/dist/includes/footer/index.html'' \<mapsto> ''<style>p > a {}</style><footer>Bye</footer>''],
       dirs = {}, reads = []\<rparr>)
   = Inr (htmlFile ''dist/index.html''
       (''<!DOCTYPE html><html><head></head><body><main>Hi</main><style>p > a {}</style>''
        @ ''<footer class='' @ [CHR 0x22] @ ''wide'' @ [CHR 0x22] @ ''>Bye</footer></body></html>''),
      store0\<lparr>cachedIncludes :=
        [''/site/dist/includes/footer'' \<mapsto> ''<style>p > a {}</style><footer>Bye</footer>'']\<rparr>,
      \<lparr>disk = [''/site/dist/includes/footer/index.html'' \<mapsto> ''<style>p > a {}</style><footer>Bye</footer>''],
       dirs = {}, reads = [''/site/dist/includes/footer/index.html'']\<rparr>)"
  by (simp add: init_def Let_def includePage_def htmlFile_def platform0_def store0_def
      isAllowedType_def querySelectorAll_def elementsIn_def selectorMatches_def hasAttribute_def
      replaceInclude_def findEl_def includeTarget_def getAttribute_def includeContent_def
      cacheGet_def isCached_def fetchIncludeSrc_def formattedIncludePath_def isLineTerminator_def
      insertAfter_def hasParentElement_def ids_def freshId_def addAttributesToReplacedDOM_def
      getValidNextElement_def invalidTypes_def toUpperCase_def toUpperChar_def removeEl_def
      setSrc_def serialize_def serializeAttrs_def voidElements_def rawTextElements_def)

text \<open>
  Claim C7 fails on the code. The early exit for a document with no include marker tests
  the node list, which is never falsy, so the pass always replaces the source by the
  serialization of its parse: the fragment \<open><p>one<br/>two</p>\<close> has no marker and
  comes back as \<open><p>one<br>two</p>\<close>.
\<close>

theorem include_pass_reserializes:
  "querySelectorAll (selectorMatches [] [''include'', ''data-include'']) brPage = []
   \<and> init (platform0\<lparr>parseDocument := (\<lambda>s. brPage)\<rparr>) ''dist'' False [''include'', ''data-include'']
        None None (htmlFile ''dist/includes/lines.html'' ''<p>one<br/>two</p>'', store0, w)
     = Inr (htmlFile ''dist/includes/lines.html'' ''<p>one<br>two</p>'', store0, w)"
  by (simp add: init_def Let_def brPage_def htmlFile_def platform0_def isAllowedType_def
      querySelectorAll_def elementsIn_def selectorMatches_def hasAttribute_def setSrc_def
      head_def body_def documentElement_def innerHTML_def rawTextElements_def voidElements_def
      serializeAttrs_def)

end
